theory Spec2Isabelle
  imports Complex_Main
begin

section \<open>JavaScript values\<close>

text \<open>
  The scraper (\<^verbatim>\<open>src/main.js\<close>) works on values produced by \<^verbatim>\<open>JSON.parse\<close> and on
  the actor input, which is JSON as well. A number is an IEEE double: finite, an infinity
  or NaN; a finite one is kept as the real number it denotes. Text is a \<^typ>\<open>string\<close>
  (code units below 256). An object is the list of its own properties, each name once.
\<close>

datatype number = NaN | PosInf | NegInf | Finite real

datatype jsval =
    JUndefined
  | JNull
  | JBool bool
  | JNum number
  | JStr string
  | JArr "jsval list"
  | JObj "(string \<times> jsval) list"

datatype exn = SyntaxError | TypeError | Error string

text \<open>The outcome of evaluating something that may throw.\<close>

datatype 'a outcome = Returns 'a | Throws exn

text \<open>\<^verbatim>\<open>ToBoolean\<close>: what \<^verbatim>\<open>!x\<close>, \<^verbatim>\<open>x || y\<close> and \<^verbatim>\<open>x ? a : b\<close> test.\<close>

fun truthy :: "jsval \<Rightarrow> bool" where
  "truthy JUndefined = False"
| "truthy JNull = False"
| "truthy (JBool b) = b"
| "truthy (JNum n) = (n \<noteq> NaN \<and> n \<noteq> Finite 0)"
| "truthy (JStr s) = (s \<noteq> [])"
| "truthy (JArr xs) = True"
| "truthy (JObj ps) = True"

text \<open>\<^verbatim>\<open>a || b\<close> on values already computed (neither operand throws).\<close>

definition or_js :: "jsval \<Rightarrow> jsval \<Rightarrow> jsval" where
  "or_js a b = (if truthy a then a else b)"

fun nullish :: "jsval \<Rightarrow> bool" where
  "nullish JUndefined = True"
| "nullish JNull = True"
| "nullish v = False"

text \<open>Own property of an object literal or of a parsed object; \<^verbatim>\<open>undefined\<close> when absent.\<close>

definition field :: "(string \<times> jsval) list \<Rightarrow> string \<Rightarrow> jsval" where
  "field ps name = (case map_of ps name of None \<Rightarrow> JUndefined | Some v \<Rightarrow> v)"

text \<open>
  \<^verbatim>\<open>v.name\<close> for a value \<open>v\<close> that is neither \<^verbatim>\<open>null\<close> nor \<^verbatim>\<open>undefined\<close>, and for the
  property names the scraper reads. None of them is a property of a string, number,
  boolean or array, nor of \<^verbatim>\<open>Object.prototype\<close>, so only an object's own properties answer.
\<close>

fun getprop :: "jsval \<Rightarrow> string \<Rightarrow> jsval" where
  "getprop (JObj ps) name = field ps name"
| "getprop v name = JUndefined"

text \<open>\<^verbatim>\<open>v?.name\<close>: \<^verbatim>\<open>undefined\<close> on \<^verbatim>\<open>null\<close> and \<^verbatim>\<open>undefined\<close>, the property otherwise.\<close>

definition opt :: "jsval \<Rightarrow> string \<Rightarrow> jsval" where
  "opt v name = (if nullish v then JUndefined else getprop v name)"

text \<open>
  The equality of \<^verbatim>\<open>Set.prototype.has\<close> (SameValueZero). Primitives are compared by value,
  NaN equal to itself. Objects and arrays are compared by reference: every object that
  \<^verbatim>\<open>JSON.parse\<close> returns is a fresh one and the extractors copy references out of
  different nodes of the parsed tree, so two object-valued keys met by the handler are
  never the same reference.
\<close>

fun same_value_zero :: "jsval \<Rightarrow> jsval \<Rightarrow> bool" where
  "same_value_zero (JArr xs) w = False"
| "same_value_zero (JObj ps) w = False"
| "same_value_zero v (JArr ys) = False"
| "same_value_zero v (JObj qs) = False"
| "same_value_zero v w = (v = w)"

section \<open>Dedup and quota: the shared state of one crawl run\<close>

text \<open>
  \<^verbatim>\<open>let saved = 0; const seenUrls = new Set();\<close> (lines 52-53). The set keeps its
  elements in insertion order, here a list without repetition.
\<close>

type_synonym listing = "(string \<times> jsval) list"

record crawl_state =
  saved :: nat
  seenUrls :: "jsval list"

definition initial_state :: crawl_state where
  "initial_state = \<lparr>saved = 0, seenUrls = []\<rparr>"

definition seen_has :: "jsval list \<Rightarrow> jsval \<Rightarrow> bool" where
  "seen_has s k = list_ex (\<lambda>x. same_value_zero x k) s"

definition seen_add :: "jsval list \<Rightarrow> jsval \<Rightarrow> jsval list" where
  "seen_add s k = (if seen_has s k then s else s @ [k])"

text \<open>\<^verbatim>\<open>const key = listing.url || listing.full_address || listing.address;\<close>\<close>

definition listing_key :: "listing \<Rightarrow> jsval" where
  "listing_key l = or_js (or_js (field l ''url'') (field l ''full_address'')) (field l ''address'')"

text \<open>
  The loop of lines 272-282. \<open>RESULTS_WANTED\<close> is a finite number, \<open>saved\<close> a counter:
  \<^verbatim>\<open>
  for (const listing of listings) {
      if (saved >= RESULTS_WANTED) break;
      const key = ...;
      if (key && !seenUrls.has(key)) { seenUrls.add(key); newListings.push(listing); saved++; }
  }\<close>
  The result is the state after the loop and \<open>newListings\<close>.
\<close>

fun admit_loop :: "real \<Rightarrow> crawl_state \<Rightarrow> listing list \<Rightarrow> crawl_state \<times> listing list" where
  "admit_loop RESULTS_WANTED st [] = (st, [])"
| "admit_loop RESULTS_WANTED st (l # ls) =
     (if real (saved st) \<ge> RESULTS_WANTED then (st, [])
      else if truthy (listing_key l) \<and> \<not> seen_has (seenUrls st) (listing_key l)
      then (case admit_loop RESULTS_WANTED
                  (st\<lparr>seenUrls := seen_add (seenUrls st) (listing_key l), saved := Suc (saved st)\<rparr>) ls
            of (st', newListings) \<Rightarrow> (st', l # newListings))
      else admit_loop RESULTS_WANTED st ls)"


section \<open>Strings\<close>

text \<open>\<^verbatim>\<open>s.startsWith(p)\<close>, \<^verbatim>\<open>s.endsWith(p)\<close>, \<^verbatim>\<open>s.includes(p)\<close>.\<close>

definition starts_with :: "string \<Rightarrow> string \<Rightarrow> bool" where
  "starts_with s p = (take (length p) s = p)"

definition ends_with :: "string \<Rightarrow> string \<Rightarrow> bool" where
  "ends_with s p = starts_with (rev s) (rev p)"

fun str_includes :: "string \<Rightarrow> string \<Rightarrow> bool" where
  "str_includes [] p = (p = [])"
| "str_includes (c # cs) p = (starts_with (c # cs) p \<or> str_includes cs p)"

text \<open>\<^verbatim>\<open>s.replace(pat, rep)\<close> with a string pattern: the first occurrence only.\<close>

fun replace_first :: "string \<Rightarrow> string \<Rightarrow> string \<Rightarrow> string" where
  "replace_first [] pat rep = (if pat = [] then rep else [])"
| "replace_first (c # cs) pat rep =
     (if starts_with (c # cs) pat then rep @ drop (length pat) (c # cs)
      else c # replace_first cs pat rep)"

text \<open>The decimal digits of a page number, as a template literal prints it.\<close>

definition digit_char :: "nat \<Rightarrow> char" where
  "digit_char d = ''0123456789'' ! d"

fun digits :: "nat \<Rightarrow> string" where
  "digits n = (if n < 10 then [digit_char n] else digits (n div 10) @ [digit_char (n mod 10)])"

declare digits.simps [simp del]

definition is_digit :: "char \<Rightarrow> bool" where
  "is_digit c = (c \<in> set ''0123456789'')"

text \<open>The class \<^verbatim>\<open>\s\<close> on code units below 256: tab, LF, VT, FF, CR, space, NBSP.\<close>

definition is_space :: "char \<Rightarrow> bool" where
  "is_space c = (c \<in> set [CHR 0x09, CHR 0x0A, CHR 0x0B, CHR 0x0C, CHR 0x0D, CHR 0x20, CHR 0xA0])"

text \<open>
  A word under the flag \<^verbatim>\<open>i\<close>, given as its letters in lower and upper case, matched at
  the start of \<open>s\<close>.
\<close>

fun ci_prefix :: "(char \<times> char) list \<Rightarrow> string \<Rightarrow> bool" where
  "ci_prefix [] s = True"
| "ci_prefix ((a, b) # p) [] = False"
| "ci_prefix ((a, b) # p) (c # cs) = ((c = a \<or> c = b) \<and> ci_prefix p cs)"

text \<open>
  \<^verbatim>\<open>/\s*Beds?/i\<close>, \<^verbatim>\<open>/\s*Baths?/i\<close> and \<^verbatim>\<open>/\s*sqft/i\<close> tried at the start of \<open>s\<close>:
  the white space, the word, and one more letter when \<open>plural\<close> allows it. The result is
  what follows the match. A shorter run of white space never helps, since the word does
  not start with white space.
\<close>

definition match_unit :: "string \<Rightarrow> string \<Rightarrow> bool \<Rightarrow> string \<Rightarrow> string option" where
  "match_unit lo up plural s =
     (let r = dropWhile is_space s in
      if ci_prefix (zip lo up) r then
        (let r' = drop (length lo) r in
         Some (if plural \<and> r' \<noteq> [] \<and> (hd r' = CHR ''s'' \<or> hd r' = CHR ''S'') then tl r' else r'))
      else None)"

text \<open>\<^verbatim>\<open>s.replace(re, '')\<close> for these patterns: the leftmost match is removed.\<close>

fun replace_unit :: "string \<Rightarrow> string \<Rightarrow> bool \<Rightarrow> string \<Rightarrow> string" where
  "replace_unit lo up plural [] = []"
| "replace_unit lo up plural (c # cs) =
     (case match_unit lo up plural (c # cs) of
        Some rest \<Rightarrow> rest
      | None \<Rightarrow> c # replace_unit lo up plural cs)"

definition strip_beds :: "string \<Rightarrow> string" where
  "strip_beds s = replace_unit ''bed'' ''BED'' True s"

definition strip_baths :: "string \<Rightarrow> string" where
  "strip_baths s = replace_unit ''bath'' ''BATH'' True s"

text \<open>\<^verbatim>\<open>.replace(/\s*sqft/i, '').replace(/,/g, '')\<close>\<close>

definition strip_sqft :: "string \<Rightarrow> string" where
  "strip_sqft s = filter (\<lambda>c. c \<noteq> CHR '','') (replace_unit ''sqft'' ''SQFT'' False s)"

text \<open>
  \<^verbatim>\<open>path.replace(/\/\d+_p\/?$/, '/')\<close>, read from the end of the path: an optional
  slash, \<^verbatim>\<open>_p\<close>, one or more digits and the slash before them.
\<close>

definition strip_page_segment :: "string \<Rightarrow> string" where
  "strip_page_segment path =
     (let r = rev path;
          r1 = (if r \<noteq> [] \<and> hd r = CHR ''/'' then tl r else r)
      in if take 2 r1 = ''p_'' then
           (let r2 = drop 2 r1;
                ds = takeWhile is_digit r2;
                r3 = dropWhile is_digit r2
            in if ds \<noteq> [] \<and> r3 \<noteq> [] \<and> hd r3 = CHR ''/'' then rev (tl r3) @ ''/'' else path)
         else path)"

section \<open>What the runtime provides\<close>

text \<open>
  A parsed URL, for the http and https addresses the crawler accepts: what comes before
  the path, the path, and the query and fragment after it. \<^verbatim>\<open>url.href\<close> joins them;
  assigning \<^verbatim>\<open>url.pathname\<close> stores a path that is already in normal form.
\<close>

record url =
  before_path :: string
  pathname :: string
  after_path :: string

definition href :: "url \<Rightarrow> string" where
  "href u = before_path u @ pathname u @ after_path u"

text \<open>
  The built-ins whose results depend on the engine, the locale or the URL standard are
  parameters of the model: \<^verbatim>\<open>new URL(s)\<close> and \<^verbatim>\<open>new URL(rel, base)\<close> (which throw a
  TypeError on an invalid address), \<^verbatim>\<open>Number.prototype.toString\<close> and
  \<^verbatim>\<open>toLocaleString\<close>, \<^verbatim>\<open>toString\<close> and \<^verbatim>\<open>toLocaleString\<close> called on an array or an
  object (which throw when an own property of that name hides the method), and the
  conversion of a string to a number.
\<close>

record host =
  URL_new :: "string \<Rightarrow> url outcome"
  URL_resolve :: "string \<Rightarrow> string \<Rightarrow> url outcome"
  number_toString :: "number \<Rightarrow> string"
  number_toLocaleString :: "number \<Rightarrow> string"
  object_toString :: "jsval \<Rightarrow> string outcome"
  object_toLocaleString :: "jsval \<Rightarrow> string outcome"
  string_to_number :: "string \<Rightarrow> number"

text \<open>\<^verbatim>\<open>v.toString()\<close> and \<^verbatim>\<open>v.toLocaleString()\<close>.\<close>

fun call_toString :: "host \<Rightarrow> jsval \<Rightarrow> string outcome" where
  "call_toString H JUndefined = Throws TypeError"
| "call_toString H JNull = Throws TypeError"
| "call_toString H (JBool b) = Returns (if b then ''true'' else ''false'')"
| "call_toString H (JNum n) = Returns (number_toString H n)"
| "call_toString H (JStr s) = Returns s"
| "call_toString H v = object_toString H v"

fun call_toLocaleString :: "host \<Rightarrow> jsval \<Rightarrow> string outcome" where
  "call_toLocaleString H JUndefined = Throws TypeError"
| "call_toLocaleString H JNull = Throws TypeError"
| "call_toLocaleString H (JBool b) = Returns (if b then ''true'' else ''false'')"
| "call_toLocaleString H (JNum n) = Returns (number_toLocaleString H n)"
| "call_toLocaleString H (JStr s) = Returns s"
| "call_toLocaleString H v = object_toLocaleString H v"

text \<open>Unary plus, \<^verbatim>\<open>+v\<close>: an array or object is first turned into a string.\<close>

fun unary_plus :: "host \<Rightarrow> jsval \<Rightarrow> number outcome" where
  "unary_plus H JUndefined = Returns NaN"
| "unary_plus H JNull = Returns (Finite 0)"
| "unary_plus H (JBool b) = Returns (Finite (if b then 1 else 0))"
| "unary_plus H (JNum n) = Returns n"
| "unary_plus H (JStr s) = Returns (string_to_number H s)"
| "unary_plus H v =
     (case object_toString H v of
        Throws e \<Rightarrow> Throws e
      | Returns s \<Rightarrow> Returns (string_to_number H s))"

section \<open>The fetched page\<close>

text \<open>
  What the handler reads from the parsed document \<^verbatim>\<open>$\<close>: the text of the title; for
  \<^verbatim>\<open>script#__NEXT_DATA__\<close>, nothing when no element matches and otherwise what
  \<^verbatim>\<open>JSON.parse\<close> makes of its text (a value, or a SyntaxError); the same for each
  \<^verbatim>\<open>script[type="application/ld+json"]\<close> in document order; and the \<^verbatim>\<open>href\<close> of the
  first "next" link, which only the earlier variant of the scraper reads.
\<close>

record document =
  title_text :: string
  next_data :: "jsval outcome option"
  json_ld :: "jsval outcome list"
  next_link :: "string option"

section \<open>Strategy A: the embedded data of \<^verbatim>\<open>__NEXT_DATA__\<close>\<close>

text \<open>\<^verbatim>\<open>a || b\<close> where \<open>a\<close> may throw and \<open>b\<close> is evaluated only when \<open>a\<close> is falsy.\<close>

definition or_else :: "jsval outcome \<Rightarrow> jsval outcome \<Rightarrow> jsval outcome" where
  "or_else a b = (case a of Throws e \<Rightarrow> Throws e | Returns v \<Rightarrow> if truthy v then Returns v else b)"

text \<open>
  \<^verbatim>\<open>v?.replace(re, '')\<close>: \<^verbatim>\<open>undefined\<close> on \<^verbatim>\<open>null\<close> and \<^verbatim>\<open>undefined\<close>, the new string on
  a string, and a TypeError on anything else, which has no method \<^verbatim>\<open>replace\<close>.
\<close>

definition method_replace :: "(string \<Rightarrow> string) \<Rightarrow> jsval \<Rightarrow> jsval outcome" where
  "method_replace f v =
     (if nullish v then Returns JUndefined
      else case v of JStr s \<Rightarrow> Returns (JStr (f s)) | _ \<Rightarrow> Throws TypeError)"

text \<open>\<^verbatim>\<open>v?.toString()\<close>\<close>

definition method_toString :: "host \<Rightarrow> jsval \<Rightarrow> jsval outcome" where
  "method_toString H v =
     (if nullish v then Returns JUndefined
      else case call_toString H v of Throws e \<Rightarrow> Throws e | Returns s \<Rightarrow> Returns (JStr s))"

text \<open>\<^verbatim>\<open>v?.[0]\<close>: the first element of an array, the first character of a string.\<close>

fun opt_index0 :: "jsval \<Rightarrow> jsval" where
  "opt_index0 (JArr []) = JUndefined"
| "opt_index0 (JArr (x # xs)) = x"
| "opt_index0 (JStr []) = JUndefined"
| "opt_index0 (JStr (c # cs)) = JStr [c]"
| "opt_index0 (JObj ps) = field ps ''0''"
| "opt_index0 v = JUndefined"

text \<open>
  The fields of one record of \<^verbatim>\<open>homes.map(home => ({...}))\<close>, lines 86-125, for a \<open>home\<close>
  that is not \<^verbatim>\<open>null\<close>. Only these can throw: \<open>price\<close> (\<^verbatim>\<open>toLocaleString\<close>), \<open>beds\<close>,
  \<open>baths\<close>, \<open>sqft\<close> (\<^verbatim>\<open>replace\<close>, \<^verbatim>\<open>toString\<close>) and \<open>url\<close> (\<^verbatim>\<open>startsWith\<close>).
\<close>

definition home_price :: "host \<Rightarrow> jsval \<Rightarrow> jsval outcome" where
  "home_price H home =
     or_else (Returns (opt (getprop home ''price'') ''formattedPrice''))
       (let p = opt (getprop home ''price'') ''price'' in
        if truthy p then
          (case call_toLocaleString H p of
             Throws e \<Rightarrow> Throws e
           | Returns s \<Rightarrow> Returns (JStr (''$'' @ s)))
        else Returns JNull)"

definition home_beds :: "host \<Rightarrow> jsval \<Rightarrow> jsval outcome" where
  "home_beds H home =
     or_else (method_replace strip_beds (opt (getprop home ''bedrooms'') ''formattedValue''))
       (or_else (method_toString H (opt (getprop home ''bedrooms'') ''value'')) (Returns JNull))"

definition home_baths :: "host \<Rightarrow> jsval \<Rightarrow> jsval outcome" where
  "home_baths H home =
     or_else (method_replace strip_baths (opt (getprop home ''bathrooms'') ''formattedValue''))
       (or_else (method_toString H (opt (getprop home ''bathrooms'') ''value'')) (Returns JNull))"

definition home_sqft :: "host \<Rightarrow> jsval \<Rightarrow> jsval outcome" where
  "home_sqft H home =
     or_else (method_replace strip_sqft (opt (getprop home ''floorSpace'') ''formattedDimension''))
       (or_else (method_toString H (opt (getprop home ''floorSpace'') ''value'')) (Returns JNull))"

definition home_url :: "jsval \<Rightarrow> jsval outcome" where
  "home_url home =
     (let u = getprop home ''url'' in
      if truthy u then
        (case u of
           JStr s \<Rightarrow>
             Returns (JStr (''https://www.trulia.com'' @ (if starts_with s ''/'' then [] else ''/'') @ s))
         | _ \<Rightarrow> Throws TypeError)
      else Returns JNull)"

text \<open>
  The object literal of the callback. Reading \<^verbatim>\<open>home.price\<close> on a \<^verbatim>\<open>null\<close> element
  throws a TypeError before anything else is evaluated.
\<close>

definition home_record :: "host \<Rightarrow> jsval \<Rightarrow> listing outcome" where
  "home_record H home =
     (if nullish home then Throws TypeError
      else case (home_price H home, home_beds H home, home_baths H home, home_sqft H home, home_url home) of
        (Returns price, Returns beds, Returns baths, Returns sqft, Returns u) \<Rightarrow>
          Returns
           [(''price'', price),
            (''beds'', beds),
            (''baths'', baths),
            (''sqft'', sqft),
            (''lot_size'', or_js (opt (getprop home ''lotSize'') ''formattedDimension'') JNull),
            (''address'', or_js (or_js (opt (getprop home ''location'') ''streetAddress'')
                                      (opt (getprop home ''location'') ''formattedStreetLine'')) JNull),
            (''city'', or_js (opt (getprop home ''location'') ''city'') JNull),
            (''state'', or_js (opt (getprop home ''location'') ''stateCode'') JNull),
            (''zip_code'', or_js (opt (getprop home ''location'') ''zipCode'') JNull),
            (''full_address'', or_js (opt (getprop home ''location'') ''fullLocation'') JNull),
            (''latitude'', or_js (opt (opt (getprop home ''location'') ''coordinates'') ''latitude'') JNull),
            (''longitude'', or_js (opt (opt (getprop home ''location'') ''coordinates'') ''longitude'') JNull),
            (''property_type'', or_js (or_js (opt (getprop home ''propertyType'') ''value'')
                                            (opt (getprop home ''propertyType'') ''formattedValue'')) JNull),
            (''listing_by'', or_js (or_js (opt (opt (opt (getprop home ''activeListing'') ''provider'') ''broker'') ''name'')
                                         (opt (getprop home ''attribution'') ''listingAgent'')) JNull),
            (''description'', or_js (opt (getprop home ''description'') ''value'') JNull),
            (''image_url'', or_js (or_js (opt (opt (opt (getprop home ''media'') ''heroImage'') ''url'') ''medium'')
                                        (opt (opt (opt_index0 (opt (getprop home ''media'') ''photos'')) ''url'') ''medium'')) JNull),
            (''url'', u)]
      | _ \<Rightarrow> Throws TypeError)"

text \<open>\<^verbatim>\<open>homes.map(...)\<close>: the first callback that throws ends the whole call.\<close>

fun map_homes :: "host \<Rightarrow> jsval list \<Rightarrow> listing list outcome" where
  "map_homes H [] = Returns []"
| "map_homes H (home # homes) =
     (case home_record H home of
        Throws e \<Rightarrow> Throws e
      | Returns r \<Rightarrow>
          (case map_homes H homes of
             Throws e \<Rightarrow> Throws e
           | Returns rs \<Rightarrow> Returns (r # rs)))"

text \<open>
  \<^verbatim>\<open>json?.props?.searchData || json?.props?.pageProps?.searchData\<close>
\<close>

definition searchData_of :: "jsval \<Rightarrow> jsval" where
  "searchData_of json =
     or_js (opt (opt json ''props'') ''searchData'')
           (opt (opt (opt json ''props'') ''pageProps'') ''searchData'')"

text \<open>
  The body of the \<^verbatim>\<open>try\<close> block of \<^verbatim>\<open>extractFromNextData\<close> (lines 62-125): \<open>None\<close> is
  \<^verbatim>\<open>return null\<close>.
\<close>

definition extractFromNextData_try :: "host \<Rightarrow> document \<Rightarrow> listing list option outcome" where
  "extractFromNextData_try H doc =
     (case next_data doc of
        None \<Rightarrow> Returns None
      | Some (Throws e) \<Rightarrow> Throws e
      | Some (Returns json) \<Rightarrow>
          (let searchData = searchData_of json
           in if \<not> truthy searchData then Returns None
              else case getprop searchData ''homes'' of
                     JArr homes \<Rightarrow>
                       (case map_homes H homes of
                          Throws e \<Rightarrow> Throws e
                        | Returns rs \<Rightarrow> Returns (Some rs))
                   | _ \<Rightarrow> Returns None))"

text \<open>\<^verbatim>\<open>try { ... } catch (e) { log.warning(...); return null; }\<close>\<close>

definition extractFromNextData :: "host \<Rightarrow> document \<Rightarrow> listing list option outcome" where
  "extractFromNextData H doc =
     (case extractFromNextData_try H doc of
        Throws e \<Rightarrow> Returns None
      | Returns r \<Rightarrow> Returns r)"

section \<open>Strategy B: JSON-LD\<close>

text \<open>\<^verbatim>\<open>t?.includes?.('RealEstateListing')\<close>, as the condition it is used for.\<close>

fun includes_call :: "jsval \<Rightarrow> string \<Rightarrow> bool outcome" where
  "includes_call (JStr s) x = Returns (str_includes s x)"
| "includes_call (JArr xs) x = Returns (JStr x \<in> set xs)"
| "includes_call (JObj ps) x =
     (if nullish (field ps ''includes'') then Returns False else Throws TypeError)"
| "includes_call v x = Returns False"

text \<open>The test of lines 144-146 on \<^verbatim>\<open>item['@type']\<close>.\<close>

definition is_listing_type :: "jsval \<Rightarrow> bool outcome" where
  "is_listing_type t =
     (if t = JStr ''RealEstateListing'' \<or> t = JStr ''Product'' then Returns True
      else includes_call t ''RealEstateListing'')"

text \<open>The object pushed at lines 147-155.\<close>

definition ld_record :: "jsval \<Rightarrow> listing" where
  "ld_record item =
     [(''price'', or_js (or_js (opt (getprop item ''offers'') ''price'') (getprop item ''price'')) JNull),
      (''address'', or_js (or_js (opt (getprop item ''address'') ''streetAddress'') (getprop item ''name'')) JNull),
      (''city'', or_js (opt (getprop item ''address'') ''addressLocality'') JNull),
      (''state'', or_js (opt (getprop item ''address'') ''addressRegion'') JNull),
      (''zip_code'', or_js (opt (getprop item ''address'') ''postalCode'') JNull),
      (''url'', or_js (getprop item ''url'') JNull),
      (''image_url'', or_js (getprop item ''image'') JNull)]"

text \<open>
  The \<^verbatim>\<open>for (const item of items)\<close> loop: what it pushed, and the exception that ended it
  if one did. Reading \<^verbatim>\<open>item['@type']\<close> on \<^verbatim>\<open>null\<close> throws.
\<close>

fun ld_items :: "jsval list \<Rightarrow> listing list \<times> exn option" where
  "ld_items [] = ([], None)"
| "ld_items (item # items) =
     (if nullish item then ([], Some TypeError)
      else case is_listing_type (getprop item ''@type'') of
        Throws e \<Rightarrow> ([], Some e)
      | Returns True \<Rightarrow> (case ld_items items of (ls, x) \<Rightarrow> (ld_record item # ls, x))
      | Returns False \<Rightarrow> ld_items items)"

text \<open>
  One script element: \<^verbatim>\<open>try { ... } catch (e) { }\<close>. What was pushed before the
  exception stays in \<open>listings\<close>.
\<close>

definition ld_block :: "jsval outcome \<Rightarrow> listing list" where
  "ld_block parsed =
     (case parsed of
        Throws e \<Rightarrow> []
      | Returns json \<Rightarrow> fst (ld_items (case json of JArr items \<Rightarrow> items | _ \<Rightarrow> [json])))"

definition extractFromJsonLd :: "document \<Rightarrow> listing list option outcome" where
  "extractFromJsonLd doc =
     (let listings = concat (map ld_block (json_ld doc))
      in Returns (if length listings > 0 then Some listings else None))"

text \<open>
  Words for what the JSON-LD strategy keeps: the items of a parsed block
  (\<^verbatim>\<open>Array.isArray(json) ? json : [json]\<close>), the items on which the test of the type throws,
  the items the test accepts, and the items of all the blocks of a page that parse.
\<close>

definition items_of :: "jsval \<Rightarrow> jsval list" where
  "items_of json = (case json of JArr items \<Rightarrow> items | _ \<Rightarrow> [json])"

definition item_throws :: "jsval \<Rightarrow> bool" where
  "item_throws item =
     (nullish item \<or>
      (case is_listing_type (getprop item ''@type'') of Throws e \<Rightarrow> True | Returns b \<Rightarrow> False))"

definition recognised :: "jsval \<Rightarrow> bool" where
  "recognised item = (\<not> nullish item \<and> is_listing_type (getprop item ''@type'') = Returns True)"


section \<open>Pagination\<close>

text \<open>
  \<^verbatim>\<open>buildNextPageUrl(currentUrl, currentPage)\<close>, lines 170-188: \<open>None\<close> is the \<^verbatim>\<open>null\<close>
  of the \<^verbatim>\<open>catch\<close> block. The page number is a whole number, counted from 1.
\<close>

definition buildNextPageUrl :: "host \<Rightarrow> string \<Rightarrow> nat \<Rightarrow> string option" where
  "buildNextPageUrl H currentUrl currentPage =
     (case URL_new H currentUrl of
        Throws e \<Rightarrow> None
      | Returns u \<Rightarrow>
          (let nextPage = currentPage + 1;
               path = strip_page_segment (pathname u);
               path = (if \<not> ends_with path ''/'' then path @ ''/'' else path);
               path = path @ digits nextPage @ ''_p/''
           in Some (href (u\<lparr>pathname := path\<rparr>))))"

text \<open>
  Lines 294-304, one step without an \<^verbatim>\<open>await\<close> between the test and the insertion: the
  new state, and the URL and page number handed to \<^verbatim>\<open>enqueueLinks\<close> if any.
\<close>

definition paginate ::
  "host \<Rightarrow> real \<Rightarrow> real \<Rightarrow> string \<Rightarrow> nat \<Rightarrow> crawl_state \<Rightarrow> crawl_state \<times> (string \<times> nat) option" where
  "paginate H RESULTS_WANTED MAX_PAGES request_url pageNo st =
     (if real (saved st) < RESULTS_WANTED \<and> real pageNo < MAX_PAGES then
        (case buildNextPageUrl H request_url pageNo of
           None \<Rightarrow> (st, None)
         | Some nextUrl \<Rightarrow>
             if nextUrl \<noteq> [] \<and> \<not> seen_has (seenUrls st) (JStr nextUrl)
             then (st\<lparr>seenUrls := seen_add (seenUrls st) (JStr nextUrl)\<rparr>, Some (nextUrl, pageNo + 1))
             else (st, None))
      else (st, None))"

text \<open>
  The earlier variant of the scraper (the second source file) plans the next page with
  \<^verbatim>\<open>findNextPage($, currentUrl, currentPage)\<close>. Nothing is caught there: an invalid
  address makes the function throw.
\<close>

definition findNextPage :: "host \<Rightarrow> document \<Rightarrow> string \<Rightarrow> nat \<Rightarrow> string option outcome" where
  "findNextPage H doc currentUrl currentPage =
     (case (case next_link doc of None \<Rightarrow> [] | Some h \<Rightarrow> h) of
        c # cs \<Rightarrow>
          (if starts_with (c # cs) ''http'' then Returns (Some (c # cs))
           else case URL_resolve H (c # cs) currentUrl of
                  Throws e \<Rightarrow> Throws e
                | Returns u \<Rightarrow> Returns (Some (href u)))
      | [] \<Rightarrow>
          (case URL_new H currentUrl of
             Throws e \<Rightarrow> Throws e
           | Returns urlObj \<Rightarrow>
               (let nextPageNum = currentPage + 1 in
                if str_includes (pathname urlObj) (''/'' @ digits currentPage @ ''_p/'')
                then Returns (Some (replace_first currentUrl (''/'' @ digits currentPage @ ''_p/'')
                                                             (''/'' @ digits nextPageNum @ ''_p/'')))
                else if \<not> str_includes (pathname urlObj) ''_p/''
                then (let basePath = (if ends_with (pathname urlObj) ''/''
                                      then butlast (pathname urlObj) else pathname urlObj)
                      in Returns (Some (href (urlObj\<lparr>pathname := basePath @ ''/'' @ digits nextPageNum @ ''_p/''\<rparr>))))
                else Returns None)))"

section \<open>The request handler\<close>

text \<open>\<^verbatim>\<open>title.includes('Access Denied') || title.includes('Captcha') || title.includes('Robot')\<close>\<close>

definition blocked_title :: "string \<Rightarrow> bool" where
  "blocked_title title =
     (str_includes title ''Access Denied'' \<or> str_includes title ''Captcha'' \<or> str_includes title ''Robot'')"

text \<open>
  Lines 251-269: the listings of the page and whether the debug copy of the page was
  stored. The second strategy is evaluated only in the \<^verbatim>\<open>else\<close> branch.
\<close>

definition page_listings :: "host \<Rightarrow> document \<Rightarrow> (listing list \<times> bool) outcome" where
  "page_listings H doc =
     (case extractFromNextData H doc of
        Throws e \<Rightarrow> Throws e
      | Returns (Some (l # ls)) \<Rightarrow> Returns (l # ls, False)
      | Returns _ \<Rightarrow>
          (case extractFromJsonLd doc of
             Throws e \<Rightarrow> Throws e
           | Returns (Some (l # ls)) \<Rightarrow> Returns (l # ls, False)
           | Returns _ \<Rightarrow> Returns ([], True)))"

record request =
  request_url :: string
  userData_pageNo :: "nat option"

text \<open>\<^verbatim>\<open>const pageNo = request.userData?.pageNo || 1;\<close>\<close>

definition pageNo_of :: "request \<Rightarrow> nat" where
  "pageNo_of req = (case userData_pageNo req of None \<Rightarrow> 1 | Some n \<Rightarrow> if n = 0 then 1 else n)"

text \<open>
  What one call of the handler did: the state it left, whether it retired the session,
  whether it stored the debug page, the batch given to \<^verbatim>\<open>Dataset.pushData\<close>, the page
  given to \<^verbatim>\<open>enqueueLinks\<close>, and the exception it threw.
\<close>

record handled =
  state_after :: crawl_state
  session_retired :: bool
  debug_saved :: bool
  pushed :: "listing list option"
  enqueued :: "(string \<times> nat) option"
  thrown :: "exn option"

text \<open>
  \<^verbatim>\<open>requestHandler({ request, $, enqueueLinks, session })\<close>, lines 239-305, when no other
  handler runs during its \<^verbatim>\<open>await\<close>s and the dataset, the key-value store and the queue
  do not fail. \<open>session\<close> tells whether the crawler passed a session
  (\<^verbatim>\<open>session?.retire()\<close>).
\<close>

definition requestHandler ::
  "host \<Rightarrow> real \<Rightarrow> real \<Rightarrow> request \<Rightarrow> document \<Rightarrow> bool \<Rightarrow> crawl_state \<Rightarrow> handled" where
  "requestHandler H RESULTS_WANTED MAX_PAGES req doc session st =
     (let pageNo = pageNo_of req in
      if blocked_title (title_text doc)
      then \<lparr>state_after = st, session_retired = session, debug_saved = False, pushed = None,
            enqueued = None, thrown = Some (Error ''Blocked by anti-bot protection'')\<rparr>
      else case page_listings H doc of
        Throws e \<Rightarrow>
          \<lparr>state_after = st, session_retired = False, debug_saved = False, pushed = None,
           enqueued = None, thrown = Some e\<rparr>
      | Returns (listings, dbg) \<Rightarrow>
          (case admit_loop RESULTS_WANTED st listings of
             (st1, newListings) \<Rightarrow>
               (case paginate H RESULTS_WANTED MAX_PAGES (request_url req) pageNo st1 of
                  (st2, next) \<Rightarrow>
                    \<lparr>state_after = st2, session_retired = False, debug_saved = dbg,
                     pushed = (if length newListings > 0 then Some newListings else None),
                     enqueued = next, thrown = None\<rparr>)))"

text \<open>
  The crawler is built with \<^verbatim>\<open>useSessionPool: true\<close> (line 197), so every call gets a
  session.
\<close>

definition crawler_handle ::
  "host \<Rightarrow> real \<Rightarrow> real \<Rightarrow> request \<Rightarrow> document \<Rightarrow> crawl_state \<Rightarrow> handled" where
  "crawler_handle H RESULTS_WANTED MAX_PAGES req doc st =
     requestHandler H RESULTS_WANTED MAX_PAGES req doc True st"

text \<open>
  The states of one run. Handlers of different pages interleave at their \<^verbatim>\<open>await\<close>s
  (\<^verbatim>\<open>maxConcurrency: 2\<close>), but the admission loop and the pagination step each run
  without interruption, so a run is a sequence of such steps in some order, on the
  listings of some page and for some request.
\<close>

inductive reachable :: "host \<Rightarrow> real \<Rightarrow> real \<Rightarrow> crawl_state \<Rightarrow> bool"
  for H :: host and RESULTS_WANTED :: real and MAX_PAGES :: real where
  start: "reachable H RESULTS_WANTED MAX_PAGES initial_state"
| admitted: "reachable H RESULTS_WANTED MAX_PAGES st \<Longrightarrow>
     reachable H RESULTS_WANTED MAX_PAGES (fst (admit_loop RESULTS_WANTED st listings))"
| paginated: "reachable H RESULTS_WANTED MAX_PAGES st \<Longrightarrow>
     reachable H RESULTS_WANTED MAX_PAGES (fst (paginate H RESULTS_WANTED MAX_PAGES u pageNo st))"

section \<open>The limits of the input\<close>

text \<open>
  \<^verbatim>\<open>const input = (await Actor.getInput()) || {};\<close> and the destructuring
  \<^verbatim>\<open>name: RAW = dflt\<close>, whose default replaces \<^verbatim>\<open>undefined\<close> only.
\<close>

definition destructure :: "jsval \<Rightarrow> string \<Rightarrow> real \<Rightarrow> jsval" where
  "destructure got name dflt =
     (let input = or_js got (JObj []); v = getprop input name
      in if v = JUndefined then JNum (Finite dflt) else v)"

text \<open>\<^verbatim>\<open>Number.isFinite(+RAW) ? Math.max(1, +RAW) : dflt\<close>\<close>

definition effective_limit :: "host \<Rightarrow> jsval \<Rightarrow> real \<Rightarrow> real outcome" where
  "effective_limit H raw dflt =
     (case unary_plus H raw of
        Throws e \<Rightarrow> Throws e
      | Returns (Finite x) \<Rightarrow> Returns (max 1 x)
      | Returns _ \<Rightarrow> Returns dflt)"

definition RESULTS_WANTED_of :: "host \<Rightarrow> jsval \<Rightarrow> real outcome" where
  "RESULTS_WANTED_of H got = effective_limit H (destructure got ''results_wanted'' 20) 20"

definition MAX_PAGES_of :: "host \<Rightarrow> jsval \<Rightarrow> real outcome" where
  "MAX_PAGES_of H got = effective_limit H (destructure got ''max_pages'' 5) 5"

section \<open>A host for the examples\<close>

text \<open>
  The examples below are evaluated with this host. It reads an address of the plain form
  \<^verbatim>\<open>https://authority/path?query#fragment\<close> and rejects any other, resolves a
  reference that starts with one slash against such an address, prints a number as the
  decimal digits of its whole part (what an engine prints for a whole number from 0 up to
  \<open>10\<^sup>2\<^sup>1\<close>, in a locale without digit grouping), and reads a string of decimal
  digits as that number and any other string as NaN. It stands for an engine on the
  inputs of the examples only; the theorems hold for every host.
\<close>

definition example_URL :: "string \<Rightarrow> url outcome" where
  "example_URL s =
     (if starts_with s ''https://'' then
        (let rest = drop 8 s;
             stop = (\<lambda>c. c = CHR ''/'' \<or> c = CHR ''?'' \<or> c = CHR ''#'');
             auth = takeWhile (\<lambda>c. \<not> stop c) rest;
             tail = dropWhile (\<lambda>c. \<not> stop c) rest;
             path = takeWhile (\<lambda>c. c \<noteq> CHR ''?'' \<and> c \<noteq> CHR ''#'') tail;
             after = dropWhile (\<lambda>c. c \<noteq> CHR ''?'' \<and> c \<noteq> CHR ''#'') tail
         in if auth = [] then Throws TypeError
            else Returns \<lparr>before_path = ''https://'' @ auth,
                          pathname = (if path = [] then ''/'' else path),
                          after_path = after\<rparr>)
      else Throws TypeError)"

definition example_resolve :: "string \<Rightarrow> string \<Rightarrow> url outcome" where
  "example_resolve rel base =
     (case example_URL base of
        Throws e \<Rightarrow> Throws e
      | Returns b \<Rightarrow>
          if starts_with rel ''/'' \<and> \<not> starts_with rel ''//''
          then example_URL (before_path b @ rel)
          else Throws TypeError)"

definition example_number :: "number \<Rightarrow> string" where
  "example_number n =
     (case n of
        NaN \<Rightarrow> ''NaN''
      | PosInf \<Rightarrow> ''Infinity''
      | NegInf \<Rightarrow> ''-Infinity''
      | Finite x \<Rightarrow> digits (nat \<lfloor>x\<rfloor>))"

fun join_outcomes :: "string outcome list \<Rightarrow> string outcome" where
  "join_outcomes [] = Returns []"
| "join_outcomes [r] = r"
| "join_outcomes (Throws e # rs) = Throws e"
| "join_outcomes (Returns s # rs) =
     (case join_outcomes rs of Throws e \<Rightarrow> Throws e | Returns t \<Rightarrow> Returns (s @ '','' @ t))"

text \<open>
  \<^verbatim>\<open>toString\<close> of an array or object; on the elements of an array, the string each one
  contributes to \<^verbatim>\<open>join\<close>.
\<close>

fun example_toString :: "jsval \<Rightarrow> string outcome" where
  "example_toString JUndefined = Returns []"
| "example_toString JNull = Returns []"
| "example_toString (JBool b) = Returns (if b then ''true'' else ''false'')"
| "example_toString (JNum n) = Returns (example_number n)"
| "example_toString (JStr s) = Returns s"
| "example_toString (JArr xs) = join_outcomes (map example_toString xs)"
| "example_toString (JObj ps) =
     (if ''toString'' \<in> set (map fst ps) then Throws TypeError else Returns ''[object Object]'')"

definition example_parse_number :: "string \<Rightarrow> number" where
  "example_parse_number s =
     (if s \<noteq> [] \<and> list_all is_digit s
      then Finite (real (foldl (\<lambda>n c. 10 * n + (of_char c - 48)) 0 s))
      else NaN)"

definition example_host :: host where
  "example_host =
     \<lparr>URL_new = example_URL,
      URL_resolve = example_resolve,
      number_toString = example_number,
      number_toLocaleString = example_number,
      object_toString = example_toString,
      object_toLocaleString = example_toString,
      string_to_number = example_parse_number\<rparr>"

section \<open>The shape of a record\<close>

text \<open>
  The keys of the object literals of lines 86-125 and 147-155, in the order written, and
  the thirteen fields of the output table.
\<close>

definition next_data_fields :: "string list" where
  "next_data_fields =
     [''price'', ''beds'', ''baths'', ''sqft'', ''lot_size'', ''address'', ''city'', ''state'',
      ''zip_code'', ''full_address'', ''latitude'', ''longitude'', ''property_type'', ''listing_by'',
      ''description'', ''image_url'', ''url'']"

definition json_ld_fields :: "string list" where
  "json_ld_fields = [''price'', ''address'', ''city'', ''state'', ''zip_code'', ''url'', ''image_url'']"

definition canonical_fields :: "string list" where
  "canonical_fields =
     [''price'', ''beds'', ''baths'', ''sqft'', ''lot_size'', ''address'', ''city'', ''state'',
      ''zip_code'', ''property_type'', ''listing_by'', ''image_url'', ''url'']"

definition null_or_truthy :: "jsval \<Rightarrow> bool" where
  "null_or_truthy v = (v = JNull \<or> truthy v)"

definition null_or_string :: "jsval \<Rightarrow> bool" where
  "null_or_string v = (case v of JNull \<Rightarrow> True | JStr s \<Rightarrow> True | _ \<Rightarrow> False)"

section \<open>Example pages\<close>

definition ex_listing :: "string \<Rightarrow> listing" where
  "ex_listing u = [(''price'', JNull), (''address'', JNull), (''url'', JStr u)]"

definition ex_home :: "string \<Rightarrow> jsval" where
  "ex_home path =
     JObj [(''price'', JObj [(''formattedPrice'', JStr ''$689,000'')]),
           (''bedrooms'', JObj [(''formattedValue'', JStr ''3 Beds'')]),
           (''location'', JObj [(''streetAddress'', JStr ''1208 State Route 31''),
                                (''city'', JStr ''Bridgeport''),
                                (''stateCode'', JStr ''NY'')]),
           (''url'', JStr path)]"

definition ex_page :: "jsval list \<Rightarrow> document" where
  "ex_page homes =
     \<lparr>title_text = ''Homes For Sale'',
      next_data = Some (Returns (JObj [(''props'', JObj [(''searchData'', JObj [(''homes'', JArr homes)])])])),
      json_ld = [],
      next_link = None\<rparr>"

definition ex_request :: request where
  "ex_request = \<lparr>request_url = ''https://www.trulia.com/NY/'', userData_pageNo = Some 1\<rparr>"


definition ex_record :: "string \<Rightarrow> listing" where
  "ex_record u =
     [(''price'', JStr ''$689,000''), (''beds'', JStr ''3''), (''baths'', JNull), (''sqft'', JNull),
      (''lot_size'', JNull), (''address'', JStr ''1208 State Route 31''), (''city'', JStr ''Bridgeport''),
      (''state'', JStr ''NY''), (''zip_code'', JNull), (''full_address'', JNull), (''latitude'', JNull),
      (''longitude'', JNull), (''property_type'', JNull), (''listing_by'', JNull), (''description'', JNull),
      (''image_url'', JNull), (''url'', JStr u)]"

text \<open>A home of which the page data holds the full location only.\<close>

definition ex_bare_home :: jsval where
  "ex_bare_home = JObj [(''location'', JObj [(''fullLocation'', JStr ''Bridgeport, NY 13030'')])]"

definition ex_bare_record :: listing where
  "ex_bare_record =
     [(''price'', JNull), (''beds'', JNull), (''baths'', JNull), (''sqft'', JNull),
      (''lot_size'', JNull), (''address'', JNull), (''city'', JNull),
      (''state'', JNull), (''zip_code'', JNull), (''full_address'', JStr ''Bridgeport, NY 13030''),
      (''latitude'', JNull), (''longitude'', JNull), (''property_type'', JNull), (''listing_by'', JNull),
      (''description'', JNull), (''image_url'', JNull), (''url'', JNull)]"

text \<open>A page whose embedded data parses but holds no listings, with JSON-LD blocks.\<close>

definition ex_ld_item :: "string \<Rightarrow> jsval" where
  "ex_ld_item u =
     JObj [(''@type'', JStr ''RealEstateListing''),
           (''name'', JStr ''1208 State Route 31''),
           (''url'', JStr u),
           (''offers'', JObj [(''price'', JNum (Finite 689000))]),
           (''image'', JObj [(''@type'', JStr ''ImageObject''), (''url'', JStr ''https://www.trulia.com/pictures/1.jpg'')])]"

definition ex_ld_record :: "string \<Rightarrow> listing" where
  "ex_ld_record u =
     [(''price'', JNum (Finite 689000)), (''address'', JStr ''1208 State Route 31''), (''city'', JNull),
      (''state'', JNull), (''zip_code'', JNull), (''url'', JStr u),
      (''image_url'', JObj [(''@type'', JStr ''ImageObject''), (''url'', JStr ''https://www.trulia.com/pictures/1.jpg'')])]"

definition ex_ld_page :: "jsval outcome list \<Rightarrow> document" where
  "ex_ld_page blocks =
     \<lparr>title_text = ''Homes For Sale'',
      next_data = Some (Returns (JObj [(''props'', JObj [(''pageProps'', JObj [])])])),
      json_ld = blocks,
      next_link = None\<rparr>"

text \<open>A page of which nothing parses, and a page with no script at all.\<close>

definition ex_garbage :: document where
  "ex_garbage =
     \<lparr>title_text = [], next_data = Some (Throws SyntaxError), json_ld = [Throws SyntaxError],
      next_link = None\<rparr>"

definition ex_empty :: document where
  "ex_empty = \<lparr>title_text = [], next_data = None, json_ld = [], next_link = None\<rparr>"

definition ex_blocked :: document where
  "ex_blocked = (ex_page [ex_home ''/p/ny/1''])\<lparr>title_text := ''Access Denied''\<rparr>"

definition ex_input :: jsval where
  "ex_input = JObj [(''location'', JStr ''NY''), (''results_wanted'', JNum (Finite 0)), (''max_pages'', JStr ''abc'')]"

text \<open>A JSON-LD item that is not a listing.\<close>

definition ex_breadcrumb :: jsval where
  "ex_breadcrumb = JObj [(''@type'', JStr ''BreadcrumbList''), (''name'', JStr ''New York'')]"

section \<open>Facts about the tracker\<close>

lemma same_value_zero_eq: "same_value_zero a b \<Longrightarrow> a = b"
  by (cases a; cases b) auto

lemma seen_has_add_same: "same_value_zero k' k \<Longrightarrow> seen_has (seen_add s k') k"
  by (auto simp: seen_add_def seen_has_def list_ex_iff dest: same_value_zero_eq)

lemma seen_has_add_mono: "seen_has s k \<Longrightarrow> seen_has (seen_add s k') k"
  by (auto simp: seen_add_def seen_has_def list_ex_iff)

lemma seen_has_same: "seen_has s k \<Longrightarrow> same_value_zero k' k \<Longrightarrow> seen_has s k'"
  by (auto simp: seen_has_def list_ex_iff dest: same_value_zero_eq)

lemma admit_loop_seen_key:
  "seen_has (seenUrls st) k \<Longrightarrow>
   filter (\<lambda>l. same_value_zero (listing_key l) k) (snd (admit_loop RW st ls)) = []"
proof (induction ls arbitrary: st)
  case Nil
  then show ?case by simp
next
  case (Cons l ls)
  let ?st1 = "st\<lparr>seenUrls := seen_add (seenUrls st) (listing_key l), saved := Suc (saved st)\<rparr>"
  have a: "filter (\<lambda>l. same_value_zero (listing_key l) k) (snd (admit_loop RW ?st1 ls)) = []"
    using Cons.prems by (intro Cons.IH) (simp add: seen_has_add_mono)
  have b: "filter (\<lambda>l. same_value_zero (listing_key l) k) (snd (admit_loop RW st ls)) = []"
    using Cons.prems by (rule Cons.IH)
  have c: "same_value_zero (listing_key l) k \<Longrightarrow> seen_has (seenUrls st) (listing_key l)"
    using Cons.prems by (rule seen_has_same)
  show ?case using a b c by (auto split: prod.splits)
qed

lemma admit_loop_Cons:
  "admit_loop RW st (l # ls) =
     (if real (saved st) \<ge> RW then (st, [])
      else if truthy (listing_key l) \<and> \<not> seen_has (seenUrls st) (listing_key l)
      then (fst (admit_loop RW (st\<lparr>seenUrls := seen_add (seenUrls st) (listing_key l), saved := Suc (saved st)\<rparr>) ls),
            l # snd (admit_loop RW (st\<lparr>seenUrls := seen_add (seenUrls st) (listing_key l), saved := Suc (saved st)\<rparr>) ls))
      else admit_loop RW st ls)"
  by (simp split: prod.splits)

lemma admit_loop_truthy:
  "l \<in> set (snd (admit_loop RW st ls)) \<Longrightarrow> truthy (listing_key l)"
  by (induction ls arbitrary: st) (auto simp: admit_loop_Cons simp del: admit_loop.simps(2) split: if_splits)








lemma admit_loop_saved:
  "admit_loop RW st ls = (st', new) \<Longrightarrow> saved st' = saved st + length new"
  by (induction ls arbitrary: st st' new) (auto split: if_splits prod.splits)

lemma seen_add_mono: "set s \<subseteq> set (seen_add s k)"
  by (auto simp: seen_add_def)

lemma admit_loop_seen_mono:
  "admit_loop RW st ls = (st', new) \<Longrightarrow> set (seenUrls st) \<subseteq> set (seenUrls st')"
proof (induction ls arbitrary: st st' new)
  case Nil
  then show ?case by simp
next
  case (Cons l ls)
  show ?case
  proof (cases "real (saved st) \<ge> RW")
    case True
    with Cons.prems show ?thesis by simp
  next
    case False
    show ?thesis
    proof (cases "truthy (listing_key l) \<and> \<not> seen_has (seenUrls st) (listing_key l)")
      case True
      let ?st1 = "st\<lparr>seenUrls := seen_add (seenUrls st) (listing_key l), saved := Suc (saved st)\<rparr>"
      obtain st2 new2 where r: "admit_loop RW ?st1 ls = (st2, new2)" by (cases "admit_loop RW ?st1 ls")
      with Cons.prems False True have "st' = st2" by simp
      moreover from Cons.IH[OF r] have "set (seenUrls ?st1) \<subseteq> set (seenUrls st2)" .
      ultimately show ?thesis using seen_add_mono[of "seenUrls st" "listing_key l"] by auto
    next
      case F2: False
      with Cons.prems False have "admit_loop RW st ls = (st', new)" by auto
      from Cons.IH[OF this] show ?thesis .
    qed
  qed
qed

lemma admit_loop_bound:
  "saved st \<le> n \<Longrightarrow> saved (fst (admit_loop (real n) st ls)) \<le> n"
proof (induction ls arbitrary: st)
  case Nil
  then show ?case by simp
next
  case (Cons l ls)
  show ?case
  proof (cases "real (saved st) \<ge> real n")
    case True
    with Cons.prems show ?thesis by simp
  next
    case False
    then have lt: "Suc (saved st) \<le> n" by simp
    let ?st1 = "st\<lparr>seenUrls := seen_add (seenUrls st) (listing_key l), saved := Suc (saved st)\<rparr>"
    have a: "saved (fst (admit_loop (real n) ?st1 ls)) \<le> n"
      using lt by (intro Cons.IH) simp
    have b: "saved (fst (admit_loop (real n) st ls)) \<le> n"
      using Cons.prems by (rule Cons.IH)
    show ?thesis using False a b by (auto split: prod.splits)
  qed
qed

lemma admit_loop_stop:
  "real (saved (fst (admit_loop RW st xs))) \<ge> RW \<Longrightarrow> admit_loop RW st (xs @ ys) = admit_loop RW st xs"
proof (induction xs arbitrary: st)
  case Nil
  then show ?case by (cases ys) auto
next
  case (Cons l xs)
  then show ?case by (auto split: prod.splits if_splits)
qed

lemma paginate_saved: "saved (fst (paginate H RW MP u p st)) = saved st"
  by (auto simp: paginate_def split: option.splits)

lemma paginate_seen_mono: "set (seenUrls st) \<subseteq> set (seenUrls (fst (paginate H RW MP u p st)))"
  using seen_add_mono by (auto simp: paginate_def split: option.splits)

lemma paginate_quota: "real (saved st) \<ge> RW \<Longrightarrow> snd (paginate H RW MP u p st) = None"
  by (simp add: paginate_def)

lemma reachable_bound: "reachable H (real n) MP st \<Longrightarrow> saved st \<le> n"
  by (induction rule: reachable.induct) (auto simp: initial_state_def admit_loop_bound paginate_saved)


lemma requestHandler_quota:
  assumes q: "real (saved (state_after (requestHandler H RW MP req doc s st))) \<ge> RW"
  shows "enqueued (requestHandler H RW MP req doc s st) = None"
proof (cases "blocked_title (title_text doc)")
  case True
  then show ?thesis by (simp add: requestHandler_def)
next
  case nb: False
  show ?thesis
  proof (cases "page_listings H doc")
    case (Throws e)
    with nb show ?thesis by (simp add: requestHandler_def)
  next
    case (Returns r)
    obtain ls dbg where r: "r = (ls, dbg)" by (cases r)
    obtain st1 new where a: "admit_loop RW st ls = (st1, new)" by (cases "admit_loop RW st ls")
    obtain st2 nx where p: "paginate H RW MP (request_url req) (pageNo_of req) st1 = (st2, nx)"
      by (cases "paginate H RW MP (request_url req) (pageNo_of req) st1")
    have h: "requestHandler H RW MP req doc s st =
        \<lparr>state_after = st2, session_retired = False, debug_saved = dbg,
         pushed = (if length new > 0 then Some new else None), enqueued = nx, thrown = None\<rparr>"
      using nb Returns r a p by (simp add: requestHandler_def)
    have "saved st2 = saved st1" using paginate_saved[of H RW MP "request_url req" "pageNo_of req" st1] p by simp
    with q h have "real (saved st1) \<ge> RW" by simp
    then have "snd (paginate H RW MP (request_url req) (pageNo_of req) st1) = None" by (rule paginate_quota)
    with p h show ?thesis by simp
  qed
qed

lemma admit_loop_seen_has_mono:
  "seen_has (seenUrls st) k \<Longrightarrow> seen_has (seenUrls (fst (admit_loop RW st ls))) k"
  by (induction ls arbitrary: st)
     (auto simp: admit_loop_Cons seen_has_add_mono simp del: admit_loop.simps(2))

lemma admit_loop_records:
  "l \<in> set (snd (admit_loop RW st ls)) \<Longrightarrow> same_value_zero (listing_key l) k \<Longrightarrow>
   seen_has (seenUrls (fst (admit_loop RW st ls))) k"
proof (induction ls arbitrary: st)
  case Nil
  then show ?case by simp
next
  case (Cons a ls)
  let ?st1 = "st\<lparr>seenUrls := seen_add (seenUrls st) (listing_key a), saved := Suc (saved st)\<rparr>"
  show ?case
  proof (cases "real (saved st) \<ge> RW")
    case True
    with Cons.prems show ?thesis by simp
  next
    case False
    show ?thesis
    proof (cases "truthy (listing_key a) \<and> \<not> seen_has (seenUrls st) (listing_key a)")
      case adm: True
      have out: "admit_loop RW st (a # ls) = (fst (admit_loop RW ?st1 ls), a # snd (admit_loop RW ?st1 ls))"
        using False adm by (simp add: admit_loop_Cons del: admit_loop.simps(2))
      show ?thesis
      proof (cases "l \<in> set (snd (admit_loop RW ?st1 ls))")
        case True
        from Cons.IH[OF True Cons.prems(2)] out show ?thesis by simp
      next
        case F: False
        with Cons.prems(1) out have "l = a" by simp
        with Cons.prems(2) have "seen_has (seenUrls ?st1) k" by (simp add: seen_has_add_same)
        then have "seen_has (seenUrls (fst (admit_loop RW ?st1 ls))) k" by (rule admit_loop_seen_has_mono)
        with out show ?thesis by simp
      qed
    next
      case rej: False
      have out: "admit_loop RW st (a # ls) = admit_loop RW st ls"
        using False rej by auto
      with Cons.prems Cons.IH[of st] show ?thesis by simp
    qed
  qed
qed

lemma paginate_enqueues_iff:
  "snd (paginate H RW MP u p st) \<noteq> None \<longleftrightarrow>
     real (saved st) < RW \<and> real p < MP \<and>
     (\<exists>nextUrl. buildNextPageUrl H u p = Some nextUrl \<and> nextUrl \<noteq> [] \<and> \<not> seen_has (seenUrls st) (JStr nextUrl))"
  by (auto simp: paginate_def split: option.splits)

lemma paginate_records:
  "snd (paginate H RW MP u p st) = Some (nextUrl, n) \<Longrightarrow>
   seen_has (seenUrls (fst (paginate H RW MP u p st))) (JStr nextUrl)"
  by (auto simp: paginate_def seen_has_add_same split: option.splits if_splits)

lemma effective_limit_ge1: "effective_limit H raw dflt = Returns x \<Longrightarrow> 1 \<le> dflt \<Longrightarrow> 1 \<le> x"
  by (auto simp: effective_limit_def split: outcome.splits number.splits)

lemma admit_loop_bound_real:
  "real (saved st) < RW + 1 \<Longrightarrow> real (saved (fst (admit_loop RW st ls))) < RW + 1"
proof (induction ls arbitrary: st)
  case Nil
  then show ?case by simp
next
  case (Cons l ls)
  show ?case
  proof (cases "real (saved st) \<ge> RW")
    case True
    with Cons.prems show ?thesis by simp
  next
    case False
    let ?st1 = "st\<lparr>seenUrls := seen_add (seenUrls st) (listing_key l), saved := Suc (saved st)\<rparr>"
    have "real (saved ?st1) < RW + 1" using False by simp
    then have a: "real (saved (fst (admit_loop RW ?st1 ls))) < RW + 1" by (rule Cons.IH)
    have b: "real (saved (fst (admit_loop RW st ls))) < RW + 1" using Cons.prems by (rule Cons.IH)
    show ?thesis using False a b by (auto simp: admit_loop_Cons simp del: admit_loop.simps(2))
  qed
qed

lemma reachable_bound_real:
  "reachable H RW MP st \<Longrightarrow> 0 \<le> RW \<Longrightarrow> real (saved st) < RW + 1"
  by (induction rule: reachable.induct)
     (auto simp: initial_state_def admit_loop_bound_real paginate_saved simp del: admit_loop.simps)



lemma admit_loop_saved_mono: "saved st \<le> saved (fst (admit_loop RW st ls))"
  using admit_loop_saved[of RW st ls] by (cases "admit_loop RW st ls") simp






section \<open>Facts about the extractors\<close>

lemma or_js_null: "null_or_truthy (or_js a JNull)"
  by (simp add: or_js_def null_or_truthy_def)

lemma method_replace_string:
  "method_replace f x = Returns v \<Longrightarrow> truthy v \<Longrightarrow> \<exists>s. v = JStr s"
  by (auto simp: method_replace_def split: if_splits jsval.splits)

lemma method_toString_string:
  "method_toString H x = Returns v \<Longrightarrow> truthy v \<Longrightarrow> \<exists>s. v = JStr s"
  by (auto simp: method_toString_def split: if_splits outcome.splits)

lemma replace_or_toString:
  assumes "or_else (method_replace f x) (or_else (method_toString H y) (Returns JNull)) = Returns v"
  shows "null_or_truthy v \<and> null_or_string v"
proof (cases "method_replace f x")
  case (Throws e)
  with assms show ?thesis by (simp add: or_else_def)
next
  case (Returns a)
  show ?thesis
  proof (cases "truthy a")
    case True
    with Returns assms have "v = a" by (simp add: or_else_def)
    with True method_replace_string[OF Returns True] show ?thesis
      by (auto simp: null_or_truthy_def null_or_string_def)
  next
    case False
    with Returns assms have r: "or_else (method_toString H y) (Returns JNull) = Returns v"
      by (simp add: or_else_def)
    show ?thesis
    proof (cases "method_toString H y")
      case (Throws e)
      with r show ?thesis by (simp add: or_else_def)
    next
      case R2: (Returns b)
      show ?thesis
      proof (cases "truthy b")
        case True
        with R2 r have "v = b" by (simp add: or_else_def)
        with True method_toString_string[OF R2 True] show ?thesis
          by (auto simp: null_or_truthy_def null_or_string_def)
      next
        case False
        with R2 r have "v = JNull" by (simp add: or_else_def)
        then show ?thesis by (simp add: null_or_truthy_def null_or_string_def)
      qed
    qed
  qed
qed

lemma home_price_shape: "home_price H home = Returns v \<Longrightarrow> null_or_truthy v"
  by (auto simp: home_price_def or_else_def null_or_truthy_def Let_def split: if_splits outcome.splits)

lemma home_url_shape: "home_url home = Returns v \<Longrightarrow> null_or_truthy v \<and> null_or_string v"
  by (auto simp: home_url_def null_or_truthy_def null_or_string_def Let_def split: if_splits jsval.splits)

lemma home_record_shape:
  assumes "home_record H home = Returns r"
  shows "map fst r = next_data_fields"
    and "\<forall>v \<in> snd ` set r. null_or_truthy v"
    and "null_or_string (field r ''beds'')" and "null_or_string (field r ''baths'')"
    and "null_or_string (field r ''sqft'')" and "null_or_string (field r ''url'')"
proof -
  from assms obtain price beds baths sqft u where
    p: "home_price H home = Returns price" and b: "home_beds H home = Returns beds" and
    ba: "home_baths H home = Returns baths" and s: "home_sqft H home = Returns sqft" and
    u: "home_url home = Returns u" and
    r: "r = [(''price'', price),
            (''beds'', beds),
            (''baths'', baths),
            (''sqft'', sqft),
            (''lot_size'', or_js (opt (getprop home ''lotSize'') ''formattedDimension'') JNull),
            (''address'', or_js (or_js (opt (getprop home ''location'') ''streetAddress'')
                                      (opt (getprop home ''location'') ''formattedStreetLine'')) JNull),
            (''city'', or_js (opt (getprop home ''location'') ''city'') JNull),
            (''state'', or_js (opt (getprop home ''location'') ''stateCode'') JNull),
            (''zip_code'', or_js (opt (getprop home ''location'') ''zipCode'') JNull),
            (''full_address'', or_js (opt (getprop home ''location'') ''fullLocation'') JNull),
            (''latitude'', or_js (opt (opt (getprop home ''location'') ''coordinates'') ''latitude'') JNull),
            (''longitude'', or_js (opt (opt (getprop home ''location'') ''coordinates'') ''longitude'') JNull),
            (''property_type'', or_js (or_js (opt (getprop home ''propertyType'') ''value'')
                                            (opt (getprop home ''propertyType'') ''formattedValue'')) JNull),
            (''listing_by'', or_js (or_js (opt (opt (opt (getprop home ''activeListing'') ''provider'') ''broker'') ''name'')
                                         (opt (getprop home ''attribution'') ''listingAgent'')) JNull),
            (''description'', or_js (opt (getprop home ''description'') ''value'') JNull),
            (''image_url'', or_js (or_js (opt (opt (opt (getprop home ''media'') ''heroImage'') ''url'') ''medium'')
                                        (opt (opt (opt_index0 (opt (getprop home ''media'') ''photos'')) ''url'') ''medium'')) JNull),
            (''url'', u)]"
    by (auto simp: home_record_def split: if_splits outcome.splits)
  note bs = replace_or_toString[OF b[unfolded home_beds_def]]
  note bas = replace_or_toString[OF ba[unfolded home_baths_def]]
  note ss = replace_or_toString[OF s[unfolded home_sqft_def]]
  note us = home_url_shape[OF u]
  note ps = home_price_shape[OF p]
  show "map fst r = next_data_fields" unfolding r by (simp add: next_data_fields_def)
  show "\<forall>v \<in> snd ` set r. null_or_truthy v"
    unfolding r using bs bas ss us ps by (simp add: or_js_null)
  show "null_or_string (field r ''beds'')" unfolding r using bs by (simp add: field_def)
  show "null_or_string (field r ''baths'')" unfolding r using bas by (simp add: field_def)
  show "null_or_string (field r ''sqft'')" unfolding r using ss by (simp add: field_def)
  show "null_or_string (field r ''url'')" unfolding r using us by (simp add: field_def)
qed

lemma map_homes_members:
  "map_homes H homes = Returns rs \<Longrightarrow> r \<in> set rs \<Longrightarrow> \<exists>home \<in> set homes. home_record H home = Returns r"
  by (induction homes arbitrary: rs) (auto split: outcome.splits)

lemma map_homes_length:
  "map_homes H homes = Returns rs \<Longrightarrow> length rs = length homes"
  by (induction homes arbitrary: rs) (auto split: outcome.splits)

lemma extractFromNextData_members:
  assumes "extractFromNextData H doc = Returns (Some rs)" and "r \<in> set rs"
  shows "\<exists>home. home_record H home = Returns r"
proof -
  from assms(1) have "extractFromNextData_try H doc = Returns (Some rs)"
    by (auto simp: extractFromNextData_def split: outcome.splits)
  then obtain homes where "map_homes H homes = Returns rs"
    by (auto simp: extractFromNextData_try_def Let_def split: option.splits outcome.splits if_splits jsval.splits)
  from map_homes_members[OF this assms(2)] show ?thesis by blast
qed

lemma ld_record_shape:
  "map fst (ld_record item) = json_ld_fields" "\<forall>v \<in> snd ` set (ld_record item). null_or_truthy v"
  by (simp_all add: ld_record_def json_ld_fields_def or_js_null)

lemma ld_items_members:
  "r \<in> set (fst (ld_items items)) \<Longrightarrow> \<exists>item \<in> set items. r = ld_record item"
  by (induction items) (auto split: if_splits outcome.splits bool.splits prod.splits)

lemma ld_block_members: "r \<in> set (ld_block b) \<Longrightarrow> \<exists>item. r = ld_record item"
  by (auto simp: ld_block_def split: outcome.splits dest: ld_items_members)

lemma extractFromJsonLd_members:
  "extractFromJsonLd doc = Returns (Some rs) \<Longrightarrow> r \<in> set rs \<Longrightarrow> \<exists>item. r = ld_record item"
  by (auto simp: extractFromJsonLd_def Let_def split: if_splits dest: ld_block_members)

lemma null_or_truthy_defined: "null_or_truthy v \<Longrightarrow> v \<noteq> JUndefined"
  by (auto simp: null_or_truthy_def)

lemma ex_ld_extract:
  "extractFromJsonLd (ex_ld_page [Returns (ex_ld_item ''https://www.trulia.com/p/ny/1'')])
     = Returns (Some [ex_ld_record ''https://www.trulia.com/p/ny/1''])"
  by (simp add: extractFromJsonLd_def ex_ld_page_def ld_block_def ex_ld_item_def is_listing_type_def
        field_def ld_record_def ex_ld_record_def or_js_def opt_def)

lemma ex_page_extract:
  "extractFromNextData example_host (ex_page [ex_home ''/p/ny/1''])
       = Returns (Some [ex_record ''https://www.trulia.com/p/ny/1''])"
  by code_simp

lemma extractFromNextData_Returns: "\<exists>r. extractFromNextData H doc = Returns r"
  by (simp add: extractFromNextData_def split: outcome.splits)

lemma extractFromJsonLd_Returns: "\<exists>r. extractFromJsonLd doc = Returns r"
  by (simp add: extractFromJsonLd_def Let_def)

lemma page_listings_Returns: "\<exists>r. page_listings H doc = Returns r"
proof -
  obtain a where a: "extractFromNextData H doc = Returns a" using extractFromNextData_Returns by blast
  obtain b where b: "extractFromJsonLd doc = Returns b" using extractFromJsonLd_Returns by blast
  show ?thesis
    by (auto simp: page_listings_def a b split: option.splits list.splits)
qed

lemma extractFromNextData_json_ld [simp]:
  "extractFromNextData H (doc\<lparr>json_ld := ld\<rparr>) = extractFromNextData H doc"
  by (simp add: extractFromNextData_def extractFromNextData_try_def)


lemma ld_block_listing:
  assumes "getprop item ''@type'' = JStr ''RealEstateListing''"
  shows "ld_block (Returns item) = [ld_record item]"
proof -
  from assms obtain ps where "item = JObj ps" by (cases item) auto
  with assms show ?thesis by (simp add: ld_block_def is_listing_type_def)
qed

lemma unparsed_blocks: "\<forall>b \<in> set bs. \<exists>e. b = Throws e \<Longrightarrow> concat (map ld_block bs) = []"
  by (induction bs) (auto simp: ld_block_def)

lemma requestHandler_pushed:
  assumes "pushed (requestHandler H RW MP req doc s st) = Some batch"
  shows "\<exists>ls st0. batch = snd (admit_loop RW st0 ls)"
proof (cases "blocked_title (title_text doc)")
  case True
  with assms show ?thesis by (simp add: requestHandler_def)
next
  case nb: False
  show ?thesis
  proof (cases "page_listings H doc")
    case (Throws e)
    with nb assms show ?thesis by (simp add: requestHandler_def)
  next
    case (Returns r)
    obtain ls dbg where r: "r = (ls, dbg)" by (cases r)
    from nb Returns r assms have "batch = snd (admit_loop RW st ls)"
      by (auto simp: requestHandler_def split: prod.splits if_splits)
    then show ?thesis by blast
  qed
qed

lemma key_truthy_fields:
  "truthy (listing_key l) \<Longrightarrow>
   truthy (field l ''url'') \<or> truthy (field l ''full_address'') \<or> truthy (field l ''address'')"
  by (auto simp: listing_key_def or_js_def split: if_splits)

lemma ex_bare_extract:
  "extractFromNextData example_host (ex_page [ex_bare_home]) = Returns (Some [ex_bare_record])"
  by code_simp

lemma ex_bare_pushed:
  "pushed (crawler_handle example_host 20 5 ex_request (ex_page [ex_bare_home]) initial_state)
     = Some [ex_bare_record]"
  by code_simp

lemma ld_items_char:
  "fst (ld_items items) = map ld_record (filter recognised (takeWhile (\<lambda>i. \<not> item_throws i) items))"
proof (induction items)
  case Nil
  then show ?case by simp
next
  case (Cons item items)
  show ?case
  proof (cases "nullish item")
    case True
    then show ?thesis by (simp add: item_throws_def)
  next
    case nn: False
    show ?thesis
    proof (cases "is_listing_type (getprop item ''@type'')")
      case (Throws e)
      with nn show ?thesis by (simp add: item_throws_def)
    next
      case (Returns b)
      with nn Cons.IH show ?thesis
        by (cases b) (auto simp: item_throws_def recognised_def split: prod.splits)
    qed
  qed
qed

lemma ld_block_char:
  "ld_block (Returns json) =
     map ld_record (filter recognised (takeWhile (\<lambda>i. \<not> item_throws i) (items_of json)))"
  "ld_block (Throws e) = []"
  using ld_items_char[of "items_of json"] by (simp_all add: ld_block_def items_of_def)




lemma map_homes_Returns_iff:
  "map_homes H homes = Returns rs \<longleftrightarrow> list_all2 (\<lambda>home r. home_record H home = Returns r) homes rs"
proof (induction homes arbitrary: rs)
  case Nil
  then show ?case by auto
next
  case (Cons home homes)
  show ?case
  proof (cases "home_record H home")
    case (Throws e)
    then show ?thesis by (auto simp: list_all2_Cons1)
  next
    case (Returns r)
    show ?thesis
    proof (cases "map_homes H homes")
      case T: (Throws e)
      with Returns Cons.IH show ?thesis by (auto simp: list_all2_Cons1)
    next
      case R: (Returns rs')
      with Returns Cons.IH show ?thesis by (auto simp: list_all2_Cons1)
    qed
  qed
qed

lemma map_homes_Throws_iff:
  "(\<exists>e. map_homes H homes = Throws e) \<longleftrightarrow> (\<exists>home \<in> set homes. \<exists>e. home_record H home = Throws e)"
  by (induction homes) (auto split: outcome.splits)

lemma home_record_empty:
  "home_record H (JObj []) = Returns (map (\<lambda>k. (k, JNull)) next_data_fields)"
  by (simp add: home_record_def home_price_def home_beds_def home_baths_def home_sqft_def home_url_def
        or_else_def method_replace_def method_toString_def opt_def field_def or_js_def next_data_fields_def)

lemma ld_record_bare:
  "ld_record (JObj [(''@type'', JStr ''RealEstateListing'')]) = map (\<lambda>k. (k, JNull)) json_ld_fields"
  by (simp add: ld_record_def opt_def field_def or_js_def json_ld_fields_def)



lemma extractFromNextData_homes:
  assumes "next_data doc = Some (Returns json)" and "getprop (searchData_of json) ''homes'' = JArr homes"
  shows "extractFromNextData H doc =
           (case map_homes H homes of Returns rs \<Rightarrow> Returns (Some rs) | Throws e \<Rightarrow> Returns None)"
proof -
  from assms(2) obtain ps where "searchData_of json = JObj ps" by (cases "searchData_of json") auto
  with assms show ?thesis
    by (auto simp: extractFromNextData_def extractFromNextData_try_def split: outcome.splits)
qed

section \<open>Facts about the pagination planner\<close>

lemma is_digit_digit_char: "d < 10 \<Longrightarrow> is_digit (digit_char d)"
  by (simp add: is_digit_def digit_char_def nth_mem del: set_simps list.set)

lemma digits_nonempty: "digits n \<noteq> []"
  by (subst digits.simps) simp

lemma digits_all_digits: "\<forall>c \<in> set (digits n). is_digit c"
proof (induction n rule: digits.induct)
  case (1 n)
  show ?case
  proof (cases "n < 10")
    case True
    then show ?thesis by (subst digits.simps) (simp add: is_digit_digit_char)
  next
    case False
    with 1 have "\<forall>c \<in> set (digits (n div 10)). is_digit c" by simp
    moreover have "is_digit (digit_char (n mod 10))" by (rule is_digit_digit_char) simp
    ultimately show ?thesis using False by (subst digits.simps) auto
  qed
qed

lemma not_digit_slash: "\<not> is_digit CHR ''/''"
  by (simp add: is_digit_def)

lemma strip_page_segment_page:
  "strip_page_segment (base @ ''/'' @ digits k @ ''_p/'') = base @ ''/''"
  "strip_page_segment (base @ ''/'' @ digits k @ ''_p'') = base @ ''/''"
proof -
  have d: "\<And>c. c \<in> set (rev (digits k)) \<Longrightarrow> is_digit c" using digits_all_digits by simp
  have tw: "takeWhile is_digit (rev (digits k) @ CHR ''/'' # rev base) = rev (digits k)"
    by (subst takeWhile_append2) (simp_all add: d not_digit_slash)
  have dw: "dropWhile is_digit (rev (digits k) @ CHR ''/'' # rev base) = CHR ''/'' # rev base"
    by (subst dropWhile_append2) (simp_all add: d not_digit_slash)
  show "strip_page_segment (base @ ''/'' @ digits k @ ''_p/'') = base @ ''/''"
    by (simp add: strip_page_segment_def tw dw digits_nonempty not_digit_slash)
  show "strip_page_segment (base @ ''/'' @ digits k @ ''_p'') = base @ ''/''"
    by (simp add: strip_page_segment_def tw dw digits_nonempty not_digit_slash)
qed

lemma ends_with_append: "ends_with (x @ p) p"
  by (simp add: ends_with_def starts_with_def)

lemma ends_with_slash: "ends_with s ''/'' \<Longrightarrow> \<exists>x. s = x @ ''/''"
proof -
  assume "ends_with s ''/''"
  then have "take 1 (rev s) = ''/''" by (simp add: ends_with_def starts_with_def)
  then obtain r where "rev s = CHR ''/'' # r" by (cases "rev s") auto
  then have "s = rev r @ ''/''" by (metis rev_rev_ident rev.simps(2))
  then show ?thesis by blast
qed

lemma buildNextPageUrl_None:
  "buildNextPageUrl H u p = None \<longleftrightarrow> (\<exists>e. URL_new H u = Throws e)"
  by (auto simp: buildNextPageUrl_def Let_def split: outcome.splits)

lemma buildNextPageUrl_shape:
  assumes "URL_new H u = Returns url"
  shows "\<exists>path. buildNextPageUrl H u p = Some (before_path url @ path @ after_path url)
           \<and> ends_with path (''/'' @ digits (p + 1) @ ''_p/'')"
proof -
  let ?s = "strip_page_segment (pathname url)"
  let ?q = "if \<not> ends_with ?s ''/'' then ?s @ ''/'' else ?s"
  have "ends_with ?q ''/''" using ends_with_append[of ?s "''/''"] by simp
  then obtain x where x: "?q = x @ ''/''" using ends_with_slash by blast
  have b: "buildNextPageUrl H u p = Some (before_path url @ (?q @ digits (p + 1) @ ''_p/'') @ after_path url)"
    using assms by (simp add: buildNextPageUrl_def Let_def href_def)
  have "?q @ digits (p + 1) @ ''_p/'' = x @ (''/'' @ digits (p + 1) @ ''_p/'')" using x by simp
  then have "ends_with (?q @ digits (p + 1) @ ''_p/'') (''/'' @ digits (p + 1) @ ''_p/'')"
    using ends_with_append[of x "''/'' @ digits (p + 1) @ ''_p/''"] by simp
  with b show ?thesis by blast
qed

lemma buildNextPageUrl_replaces:
  assumes "URL_new H u = Returns url" and "pathname url = base @ ''/'' @ digits k @ ''_p/''"
  shows "buildNextPageUrl H u p = Some (before_path url @ base @ ''/'' @ digits (p + 1) @ ''_p/'' @ after_path url)"
  using assms strip_page_segment_page(1)[of base k] ends_with_append[of base "''/''"]
  by (simp add: buildNextPageUrl_def Let_def href_def)

lemma extractFromNextData_next_link:
  "extractFromNextData H (doc\<lparr>next_link := x\<rparr>) = extractFromNextData H doc"
  by (simp add: extractFromNextData_def extractFromNextData_try_def)

lemma extractFromJsonLd_next_link:
  "extractFromJsonLd (doc\<lparr>next_link := x\<rparr>) = extractFromJsonLd doc"
  by (simp add: extractFromJsonLd_def)

lemma page_listings_next_link:
  "page_listings H (doc\<lparr>next_link := x\<rparr>) = page_listings H doc"
  unfolding page_listings_def extractFromNextData_next_link extractFromJsonLd_next_link
  by (rule refl)

lemma requestHandler_next_link:
  "requestHandler H RW MP req (doc\<lparr>next_link := x\<rparr>) s st = requestHandler H RW MP req doc s st"
  by (simp add: requestHandler_def page_listings_next_link)

lemma strip_page_segment_digits:
  assumes "ds \<noteq> []" and "list_all is_digit ds"
  shows "strip_page_segment (base @ ''/'' @ ds @ ''_p/'') = base @ ''/''"
    and "strip_page_segment (base @ ''/'' @ ds @ ''_p'') = base @ ''/''"
proof -
  have d: "\<And>c. c \<in> set (rev ds) \<Longrightarrow> is_digit c" using assms(2) by (simp add: list_all_iff)
  have tw: "takeWhile is_digit (rev ds @ CHR ''/'' # rev base) = rev ds"
    by (subst takeWhile_append2) (simp_all add: d not_digit_slash)
  have dw: "dropWhile is_digit (rev ds @ CHR ''/'' # rev base) = CHR ''/'' # rev base"
    by (subst dropWhile_append2) (simp_all add: d not_digit_slash)
  show "strip_page_segment (base @ ''/'' @ ds @ ''_p/'') = base @ ''/''"
    using assms(1) by (simp add: strip_page_segment_def tw dw not_digit_slash)
  show "strip_page_segment (base @ ''/'' @ ds @ ''_p'') = base @ ''/''"
    using assms(1) by (simp add: strip_page_segment_def tw dw not_digit_slash)
qed

lemma strip_page_segment_form:
  assumes "strip_page_segment path \<noteq> path"
  shows "\<exists>base ds. ds \<noteq> [] \<and> list_all is_digit ds \<and>
           (path = base @ ''/'' @ ds @ ''_p/'' \<or> path = base @ ''/'' @ ds @ ''_p'')"
proof -
  define r where "r = rev path"
  define r1 where "r1 = (if r \<noteq> [] \<and> hd r = CHR ''/'' then tl r else r)"
  define r2 where "r2 = drop 2 r1"
  define ds where "ds = takeWhile is_digit r2"
  define r3 where "r3 = dropWhile is_digit r2"
  from assms have c: "take 2 r1 = ''p_''" "ds \<noteq> []" "r3 \<noteq> []" "hd r3 = CHR ''/''"
    unfolding strip_page_segment_def r_def[symmetric] Let_def r1_def[symmetric] r2_def[symmetric]
      ds_def[symmetric] r3_def[symmetric]
    by (auto split: if_splits)
  have e1: "r1 = ''p_'' @ r2" using c(1) append_take_drop_id[of 2 r1] by (simp add: r2_def)
  have e2: "r2 = ds @ r3" by (simp add: ds_def r3_def)
  have e3: "r3 = CHR ''/'' # tl r3" using c(3,4) by (cases r3) auto
  have dd: "list_all is_digit (rev ds)"
    by (simp add: ds_def list_all_iff) (metis set_takeWhileD)
  have ne: "rev ds \<noteq> []" using c(2) by simp
  have p1: "rev r1 = rev (tl r3) @ ''/'' @ rev ds @ ''_p''"
    by (subst e1, subst e2, subst e3) simp
  have pr: "path = rev r" by (simp add: r_def)
  show ?thesis
  proof (cases "r \<noteq> [] \<and> hd r = CHR ''/''")
    case True
    then have "r = CHR ''/'' # r1" by (cases r) (auto simp: r1_def)
    then have "path = rev r1 @ ''/''" using pr by simp
    then have "path = rev (tl r3) @ ''/'' @ rev ds @ ''_p/''" using p1 by simp
    with dd ne show ?thesis by blast
  next
    case False
    then have "r = r1" by (auto simp: r1_def)
    then have "path = rev (tl r3) @ ''/'' @ rev ds @ ''_p''" using pr p1 by simp
    with dd ne show ?thesis by blast
  qed
qed

lemma strip_page_segment_other:
  assumes "\<forall>base ds. ds \<noteq> [] \<and> list_all is_digit ds \<longrightarrow>
             path \<noteq> base @ ''/'' @ ds @ ''_p/'' \<and> path \<noteq> base @ ''/'' @ ds @ ''_p''"
  shows "strip_page_segment path = path"
  using assms strip_page_segment_form[of path] by blast

lemma ends_with_append2: "ends_with (x @ y @ p) p"
  using ends_with_append[of "x @ y" p] by simp

lemma strip_page_segment_no_p:
  assumes "\<not> ends_with path ''_p/''" and "\<not> ends_with path ''_p''"
  shows "strip_page_segment path = path"
proof (rule ccontr)
  assume "strip_page_segment path \<noteq> path"
  then obtain base ds where "path = base @ ''/'' @ ds @ ''_p/'' \<or> path = base @ ''/'' @ ds @ ''_p''"
    using strip_page_segment_form by blast
  then have "ends_with path ''_p/'' \<or> ends_with path ''_p''"
    using ends_with_append[of "base @ ''/'' @ ds" "''_p/''"] ends_with_append[of "base @ ''/'' @ ds" "''_p''"]
    by auto
  with assms show False by simp
qed

lemma buildNextPageUrl_strip:
  assumes "URL_new H u = Returns url"
  shows "buildNextPageUrl H u p =
     Some (before_path url @ strip_page_segment (pathname url)
           @ (if ends_with (strip_page_segment (pathname url)) ''/'' then [] else ''/'')
           @ digits (p + 1) @ ''_p/'' @ after_path url)"
  using assms by (simp add: buildNextPageUrl_def Let_def href_def)

lemma buildNextPageUrl_replaces_digits:
  assumes "URL_new H u = Returns url" and "ds \<noteq> []" and "list_all is_digit ds"
    and "pathname url = base @ ''/'' @ ds @ ''_p/'' \<or> pathname url = base @ ''/'' @ ds @ ''_p''"
  shows "buildNextPageUrl H u p = Some (before_path url @ base @ ''/'' @ digits (p + 1) @ ''_p/'' @ after_path url)"
proof -
  from assms(4) strip_page_segment_digits[OF assms(2,3), of base]
  have "strip_page_segment (pathname url) = base @ ''/''" by auto
  with buildNextPageUrl_strip[OF assms(1), of p] ends_with_append[of base "''/''"]
  show ?thesis by simp
qed

lemma buildNextPageUrl_appends:
  assumes "URL_new H u = Returns url"
    and "\<forall>base ds. ds \<noteq> [] \<and> list_all is_digit ds \<longrightarrow>
             pathname url \<noteq> base @ ''/'' @ ds @ ''_p/'' \<and> pathname url \<noteq> base @ ''/'' @ ds @ ''_p''"
  shows "buildNextPageUrl H u p =
     Some (before_path url @ pathname url @ (if ends_with (pathname url) ''/'' then [] else ''/'')
           @ digits (p + 1) @ ''_p/'' @ after_path url)"
  using buildNextPageUrl_strip[OF assms(1), of p] strip_page_segment_other[OF assms(2)] by simp

lemma buildNextPageUrl_appends_no_p:
  assumes "URL_new H u = Returns url"
    and "\<not> ends_with (pathname url) ''_p/''" and "\<not> ends_with (pathname url) ''_p''"
  shows "buildNextPageUrl H u p =
     Some (before_path url @ pathname url @ (if ends_with (pathname url) ''/'' then [] else ''/'')
           @ digits (p + 1) @ ''_p/'' @ after_path url)"
  using buildNextPageUrl_strip[OF assms(1), of p] strip_page_segment_no_p[OF assms(2,3)] by simp

section \<open>The claims\<close>

text \<open>
  C1. In every crawl run the saved count starts at 0, grows only by the number of listings
  admitted, and never exceeds \<open>resultsWanted\<close>, a whole number (for a limit with a
  fraction it stays below the limit plus one): once the limit is reached, the admission
  loop stops in the middle of the page, so that the remaining listings are neither
  recorded nor emitted, and no next page is enqueued even when the page index is below
  \<open>maxPages\<close>. The set of seen keys only grows.
\<close>

theorem C1_quota_bound:
  fixes n :: nat
  shows "saved initial_state = 0 \<and> seenUrls initial_state = []
    \<and> (\<forall>st. reachable H (real n) MAX_PAGES st \<longrightarrow> saved st \<le> n)
    \<and> (0 \<le> RW \<longrightarrow> (\<forall>st. reachable H RW MAX_PAGES st \<longrightarrow> real (saved st) < RW + 1))
    \<and> (\<forall>st ls. saved (fst (admit_loop RW st ls)) = saved st + length (snd (admit_loop RW st ls)))
    \<and> (\<forall>st u p. saved (fst (paginate H RW MAX_PAGES u p st)) = saved st)
    \<and> (\<forall>st xs ys. real (saved (fst (admit_loop RW st xs))) \<ge> RW \<longrightarrow>
          admit_loop RW st (xs @ ys) = admit_loop RW st xs)
    \<and> (\<forall>st u p. real (saved st) \<ge> RW \<longrightarrow> paginate H RW MAX_PAGES u p st = (st, None))
    \<and> (\<forall>req doc s st. real (saved (state_after (requestHandler H RW MAX_PAGES req doc s st))) \<ge> RW \<longrightarrow>
          enqueued (requestHandler H RW MAX_PAGES req doc s st) = None)
    \<and> (\<forall>st ls. set (seenUrls st) \<subseteq> set (seenUrls (fst (admit_loop RW st ls))))
    \<and> (\<forall>st u p. set (seenUrls st) \<subseteq> set (seenUrls (fst (paginate H RW MAX_PAGES u p st))))"
proof -
  have a: "saved (fst (admit_loop RW st ls)) = saved st + length (snd (admit_loop RW st ls))" for st ls
    by (cases "admit_loop RW st ls") (simp add: admit_loop_saved)
  have b: "set (seenUrls st) \<subseteq> set (seenUrls (fst (admit_loop RW st ls)))" for st ls
    by (cases "admit_loop RW st ls") (simp add: admit_loop_seen_mono)
  have c: "real (saved st) \<ge> RW \<Longrightarrow> paginate H RW MAX_PAGES u p st = (st, None)" for st u p
    by (simp add: paginate_def)
  show ?thesis
    using a b c reachable_bound reachable_bound_real admit_loop_stop paginate_saved paginate_seen_mono
      requestHandler_quota
    by (simp add: initial_state_def)
qed

theorem C1_quota_bound_witness:
  "reachable example_host (real 2) 5
     (fst (admit_loop (real 2) initial_state [ex_listing ''a'', ex_listing ''b'', ex_listing ''c'']))
   \<and> saved (fst (admit_loop (real 2) initial_state [ex_listing ''a'', ex_listing ''b'', ex_listing ''c''])) \<le> 2
   \<and> real (saved (fst (admit_loop (real 2) initial_state [ex_listing ''a'', ex_listing ''b'']))) \<ge> real 2
   \<and> admit_loop (real 2) initial_state ([ex_listing ''a'', ex_listing ''b''] @ [ex_listing ''c''])
       = admit_loop (real 2) initial_state [ex_listing ''a'', ex_listing ''b'']
   \<and> snd (admit_loop (real 2) initial_state [ex_listing ''a'', ex_listing ''b'', ex_listing ''c''])
       = [ex_listing ''a'', ex_listing ''b'']
   \<and> paginate example_host (real 2) 5 ''https://www.trulia.com/NY/'' 1
        (fst (admit_loop (real 2) initial_state [ex_listing ''a'', ex_listing ''b'', ex_listing ''c'']))
       = (fst (admit_loop (real 2) initial_state [ex_listing ''a'', ex_listing ''b'', ex_listing ''c'']), None)"
proof -
  let ?page = "[ex_listing ''a'', ex_listing ''b'', ex_listing ''c'']"
  let ?st = "fst (admit_loop (real 2) initial_state ?page)"
  have r: "reachable example_host (real 2) 5 ?st"
    by (rule reachable.admitted) (rule reachable.start)
  have two: "real (saved (fst (admit_loop (real 2) initial_state [ex_listing ''a'', ex_listing ''b'']))) \<ge> real 2"
    by (simp add: initial_state_def ex_listing_def listing_key_def field_def or_js_def seen_has_def seen_add_def)
  have out: "snd (admit_loop (real 2) initial_state ?page) = [ex_listing ''a'', ex_listing ''b'']"
    by (simp add: initial_state_def ex_listing_def listing_key_def field_def or_js_def seen_has_def seen_add_def)
  have full: "real (saved ?st) \<ge> real 2"
    by (simp add: initial_state_def ex_listing_def listing_key_def field_def or_js_def seen_has_def seen_add_def)
  note C = C1_quota_bound [of example_host 2 5 "real 2"]
  from C have c1: "\<forall>st. reachable example_host (real 2) 5 st \<longrightarrow> saved st \<le> 2" by simp
  from C have c2: "\<forall>st xs ys. real (saved (fst (admit_loop (real 2) st xs))) \<ge> real 2 \<longrightarrow>
          admit_loop (real 2) st (xs @ ys) = admit_loop (real 2) st xs" by simp
  from C have c3: "\<forall>st u p. real (saved st) \<ge> real 2 \<longrightarrow> paginate example_host (real 2) 5 u p st = (st, None)"
    by simp
  have "saved ?st \<le> 2" by (rule c1[rule_format, OF r])
  moreover have "admit_loop (real 2) initial_state ([ex_listing ''a'', ex_listing ''b''] @ [ex_listing ''c''])
       = admit_loop (real 2) initial_state [ex_listing ''a'', ex_listing ''b'']" by (rule c2[rule_format, OF two])
  moreover have "paginate example_host (real 2) 5 ''https://www.trulia.com/NY/'' 1 ?st = (?st, None)"
    by (rule c3[rule_format, OF full])
  ultimately show ?thesis using r two out by (simp del: admit_loop.simps append.simps)
qed



text \<open>
  C3 (as amended). Every record of the embedded-data strategy has exactly seventeen
  fields, the thirteen of the output table and \<open>full_address\<close>, \<open>latitude\<close>,
  \<open>longitude\<close>, \<open>description\<close>; every record of the JSON-LD strategy has exactly the
  seven fields \<open>price\<close>, \<open>address\<close>, \<open>city\<close>, \<open>state\<close>, \<open>zip_code\<close>, \<open>url\<close>,
  \<open>image_url\<close>. No field that is present is \<^verbatim>\<open>undefined\<close>: each is \<^verbatim>\<open>null\<close> or a truthy
  value. \<open>beds\<close>, \<open>baths\<close>, \<open>sqft\<close> and \<open>url\<close> of the embedded-data strategy are
  strings or \<^verbatim>\<open>null\<close>; the other values are taken from the page data as they are.
\<close>

theorem C3_fields_of_a_record:
  "(\<forall>rs r. extractFromNextData H doc = Returns (Some rs) \<and> r \<in> set rs \<longrightarrow>
       map fst r = next_data_fields
       \<and> (\<forall>v \<in> snd ` set r. v \<noteq> JUndefined \<and> null_or_truthy v)
       \<and> null_or_string (field r ''beds'') \<and> null_or_string (field r ''baths'')
       \<and> null_or_string (field r ''sqft'') \<and> null_or_string (field r ''url''))
   \<and> (\<forall>rs r. extractFromJsonLd doc = Returns (Some rs) \<and> r \<in> set rs \<longrightarrow>
       map fst r = json_ld_fields \<and> (\<forall>v \<in> snd ` set r. v \<noteq> JUndefined \<and> null_or_truthy v))
   \<and> set canonical_fields \<subseteq> set next_data_fields
   \<and> set next_data_fields - set canonical_fields = {''full_address'', ''latitude'', ''longitude'', ''description''}
   \<and> set json_ld_fields \<subseteq> set canonical_fields"
proof -
  have a: "\<forall>rs r. extractFromNextData H doc = Returns (Some rs) \<and> r \<in> set rs \<longrightarrow>
       map fst r = next_data_fields
       \<and> (\<forall>v \<in> snd ` set r. v \<noteq> JUndefined \<and> null_or_truthy v)
       \<and> null_or_string (field r ''beds'') \<and> null_or_string (field r ''baths'')
       \<and> null_or_string (field r ''sqft'') \<and> null_or_string (field r ''url'')"
  proof (intro allI impI)
    fix rs r assume h: "extractFromNextData H doc = Returns (Some rs) \<and> r \<in> set rs"
    then obtain home where hr: "home_record H home = Returns r"
      using extractFromNextData_members by blast
    from home_record_shape[OF hr] null_or_truthy_defined
    show "map fst r = next_data_fields
       \<and> (\<forall>v \<in> snd ` set r. v \<noteq> JUndefined \<and> null_or_truthy v)
       \<and> null_or_string (field r ''beds'') \<and> null_or_string (field r ''baths'')
       \<and> null_or_string (field r ''sqft'') \<and> null_or_string (field r ''url'')"
      by blast
  qed
  have b: "\<forall>rs r. extractFromJsonLd doc = Returns (Some rs) \<and> r \<in> set rs \<longrightarrow>
       map fst r = json_ld_fields \<and> (\<forall>v \<in> snd ` set r. v \<noteq> JUndefined \<and> null_or_truthy v)"
  proof (intro allI impI)
    fix rs r assume h: "extractFromJsonLd doc = Returns (Some rs) \<and> r \<in> set rs"
    then obtain item where "r = ld_record item" using extractFromJsonLd_members by blast
    with ld_record_shape[of item] null_or_truthy_defined
    show "map fst r = json_ld_fields \<and> (\<forall>v \<in> snd ` set r. v \<noteq> JUndefined \<and> null_or_truthy v)"
      by blast
  qed
  have c: "set canonical_fields \<subseteq> set next_data_fields"
    by (simp add: canonical_fields_def next_data_fields_def)
  have d: "set next_data_fields - set canonical_fields = {''full_address'', ''latitude'', ''longitude'', ''description''}"
    by (auto simp: canonical_fields_def next_data_fields_def)
  have e: "set json_ld_fields \<subseteq> set canonical_fields"
    by (simp add: canonical_fields_def json_ld_fields_def)
  from a b c d e show ?thesis by (intro conjI)
qed

text \<open>
  A JSON-LD item with a numeric price and an \<^verbatim>\<open>ImageObject\<close> gives a record of seven
  fields, without \<open>beds\<close>, whose \<open>price\<close> is a number and whose \<open>image_url\<close> is an
  object; a record of the embedded data has seventeen fields.
\<close>

theorem C3_counterexample:
  "extractFromJsonLd (ex_ld_page [Returns (ex_ld_item ''https://www.trulia.com/p/ny/1'')])
     = Returns (Some [ex_ld_record ''https://www.trulia.com/p/ny/1''])
   \<and> map fst (ex_ld_record ''https://www.trulia.com/p/ny/1'') = json_ld_fields
   \<and> length json_ld_fields = 7
   \<and> field (ex_ld_record ''https://www.trulia.com/p/ny/1'') ''beds'' = JUndefined
   \<and> field (ex_ld_record ''https://www.trulia.com/p/ny/1'') ''price'' = JNum (Finite 689000)
   \<and> field (ex_ld_record ''https://www.trulia.com/p/ny/1'') ''image_url''
       = JObj [(''@type'', JStr ''ImageObject''), (''url'', JStr ''https://www.trulia.com/pictures/1.jpg'')]
   \<and> extractFromNextData example_host (ex_page [ex_home ''/p/ny/1''])
       = Returns (Some [ex_record ''https://www.trulia.com/p/ny/1''])
   \<and> map fst (ex_record ''https://www.trulia.com/p/ny/1'') = next_data_fields
   \<and> length next_data_fields = 17
   \<and> length canonical_fields = 13"
proof -
  have a: "map fst (ex_ld_record ''https://www.trulia.com/p/ny/1'') = json_ld_fields"
    by (simp add: ex_ld_record_def json_ld_fields_def)
  have b: "length json_ld_fields = 7" "length next_data_fields = 17" "length canonical_fields = 13"
    by (simp_all add: json_ld_fields_def next_data_fields_def canonical_fields_def)
  have c: "field (ex_ld_record ''https://www.trulia.com/p/ny/1'') ''beds'' = JUndefined"
    "field (ex_ld_record ''https://www.trulia.com/p/ny/1'') ''price'' = JNum (Finite 689000)"
    "field (ex_ld_record ''https://www.trulia.com/p/ny/1'') ''image_url''
       = JObj [(''@type'', JStr ''ImageObject''), (''url'', JStr ''https://www.trulia.com/pictures/1.jpg'')]"
    by (simp_all add: ex_ld_record_def field_def)
  have d: "map fst (ex_record ''https://www.trulia.com/p/ny/1'') = next_data_fields"
    by (simp add: ex_record_def next_data_fields_def)
  from ex_ld_extract a b(1) c ex_page_extract d b(2) b(3) show ?thesis by (intro conjI)
qed

theorem C3_fields_of_a_record_witness:
  "extractFromNextData example_host (ex_page [ex_home ''/p/ny/1''])
       = Returns (Some [ex_record ''https://www.trulia.com/p/ny/1''])
   \<and> map fst (ex_record ''https://www.trulia.com/p/ny/1'') = next_data_fields
   \<and> null_or_string (field (ex_record ''https://www.trulia.com/p/ny/1'') ''beds'')
   \<and> extractFromJsonLd (ex_ld_page [Returns (ex_ld_item ''https://www.trulia.com/p/ny/1'')])
     = Returns (Some [ex_ld_record ''https://www.trulia.com/p/ny/1''])
   \<and> map fst (ex_ld_record ''https://www.trulia.com/p/ny/1'') = json_ld_fields"
proof -
  let ?u = "''https://www.trulia.com/p/ny/1''"
  have a: "extractFromNextData example_host (ex_page [ex_home ''/p/ny/1'']) = Returns (Some [ex_record ?u])"
    by (rule ex_page_extract)
  have b: "extractFromJsonLd (ex_ld_page [Returns (ex_ld_item ?u)]) = Returns (Some [ex_ld_record ?u])"
    by (rule ex_ld_extract)
  have m: "ex_record ?u \<in> set [ex_record ?u]" "ex_ld_record ?u \<in> set [ex_ld_record ?u]" by simp_all
  note A = C3_fields_of_a_record[of example_host "ex_page [ex_home ''/p/ny/1'']", THEN conjunct1, rule_format,
      of "[ex_record ?u]" "ex_record ?u"]
  from A a m(1)
  have c1: "map fst (ex_record ?u) = next_data_fields \<and> null_or_string (field (ex_record ?u) ''beds'')"
    by simp
  note B = C3_fields_of_a_record[of example_host "ex_ld_page [Returns (ex_ld_item ?u)]",
      THEN conjunct2, THEN conjunct1, rule_format, of "[ex_ld_record ?u]" "ex_ld_record ?u"]
  from B b m(2)
  have c2: "map fst (ex_ld_record ?u) = json_ld_fields" by simp
  from a b c1 c2 show ?thesis by (intro conjI) (elim conjE, assumption)+
qed

text \<open>
  C4 (as amended). Neither strategy filters records by their content. The embedded-data
  strategy returns either nothing (when there is no array of homes, or when the callback
  throws on any one home, which discards the records of all of them) or exactly one
  record for each element of \<open>homes\<close>, in order, also for a home with no data at all. The
  JSON-LD strategy returns, for each block that parses, one record for each item of a
  recognised type that stands before the first item on which the test of the type
  throws, also when all the fields of the record are \<^verbatim>\<open>null\<close>. It is the admission loop
  that stops noise: every listing it admits, and so every listing the handler pushes,
  has a truthy \<open>url\<close>, \<open>full_address\<close> or \<open>address\<close>.
\<close>

theorem C4_noise_is_stopped_by_the_tracker:
  "(\<forall>homes rs. map_homes H homes = Returns rs \<longrightarrow> length rs = length homes)
   \<and> (\<forall>json homes rs. next_data doc = Some (Returns json) \<and> getprop (searchData_of json) ''homes'' = JArr homes
          \<and> extractFromNextData H doc = Returns (Some rs) \<longrightarrow> length rs = length homes)
   \<and> (\<forall>item. getprop item ''@type'' = JStr ''RealEstateListing'' \<longrightarrow> ld_block (Returns item) = [ld_record item])
   \<and> (\<forall>l \<in> set (snd (admit_loop RW st ls)).
         truthy (field l ''url'') \<or> truthy (field l ''full_address'') \<or> truthy (field l ''address''))
   \<and> (\<forall>batch l. pushed (requestHandler H RW MP req doc s st) = Some batch \<and> l \<in> set batch \<longrightarrow>
         truthy (field l ''url'') \<or> truthy (field l ''full_address'') \<or> truthy (field l ''address''))
   \<and> (\<forall>homes rs. map_homes H homes = Returns rs \<longleftrightarrow>
         list_all2 (\<lambda>home r. home_record H home = Returns r) homes rs)
   \<and> (\<forall>homes. (\<exists>e. map_homes H homes = Throws e) \<longleftrightarrow>
         (\<exists>home \<in> set homes. \<exists>e. home_record H home = Throws e))
   \<and> (\<forall>json homes. next_data doc = Some (Returns json) \<and> getprop (searchData_of json) ''homes'' = JArr homes
          \<longrightarrow> extractFromNextData H doc =
                (case map_homes H homes of Returns rs \<Rightarrow> Returns (Some rs) | Throws e \<Rightarrow> Returns None))
   \<and> home_record H (JObj []) = Returns (map (\<lambda>k. (k, JNull)) next_data_fields)
   \<and> (\<forall>json. ld_block (Returns json) =
         map ld_record (filter recognised (takeWhile (\<lambda>i. \<not> item_throws i) (items_of json))))
   \<and> (\<forall>e. ld_block (Throws e) = [])
   \<and> extractFromJsonLd doc =
        Returns (if concat (map ld_block (json_ld doc)) = [] then None
                 else Some (concat (map ld_block (json_ld doc))))
   \<and> recognised (JObj [(''@type'', JStr ''RealEstateListing'')])
   \<and> ld_record (JObj [(''@type'', JStr ''RealEstateListing'')]) = map (\<lambda>k. (k, JNull)) json_ld_fields"
proof -
  have a: "\<forall>homes rs. map_homes H homes = Returns rs \<longrightarrow> length rs = length homes"
    using map_homes_length by blast
  have b: "\<forall>json homes rs. next_data doc = Some (Returns json) \<and> getprop (searchData_of json) ''homes'' = JArr homes
          \<and> extractFromNextData H doc = Returns (Some rs) \<longrightarrow> length rs = length homes"
  proof (intro allI impI)
    fix json homes rs
    assume h: "next_data doc = Some (Returns json) \<and> getprop (searchData_of json) ''homes'' = JArr homes
          \<and> extractFromNextData H doc = Returns (Some rs)"
    then have "extractFromNextData_try H doc = Returns (Some rs)"
      by (auto simp: extractFromNextData_def split: outcome.splits)
    with h have "map_homes H homes = Returns rs"
      by (auto simp: extractFromNextData_try_def Let_def split: if_splits outcome.splits)
    then show "length rs = length homes" by (rule map_homes_length)
  qed
  have c: "\<forall>item. getprop item ''@type'' = JStr ''RealEstateListing'' \<longrightarrow> ld_block (Returns item) = [ld_record item]"
    using ld_block_listing by blast
  have d: "\<forall>l \<in> set (snd (admit_loop RW st ls)).
         truthy (field l ''url'') \<or> truthy (field l ''full_address'') \<or> truthy (field l ''address'')"
    using admit_loop_truthy key_truthy_fields by blast
  have e: "\<forall>batch l. pushed (requestHandler H RW MP req doc s st) = Some batch \<and> l \<in> set batch \<longrightarrow>
         truthy (field l ''url'') \<or> truthy (field l ''full_address'') \<or> truthy (field l ''address'')"
  proof (intro allI impI)
    fix batch l
    assume h: "pushed (requestHandler H RW MP req doc s st) = Some batch \<and> l \<in> set batch"
    then obtain ls0 st0 where "batch = snd (admit_loop RW st0 ls0)"
      using requestHandler_pushed by blast
    with h have "truthy (listing_key l)" using admit_loop_truthy by blast
    then show "truthy (field l ''url'') \<or> truthy (field l ''full_address'') \<or> truthy (field l ''address'')"
      by (rule key_truthy_fields)
  qed
  have f: "\<forall>homes rs. map_homes H homes = Returns rs \<longleftrightarrow>
         list_all2 (\<lambda>home r. home_record H home = Returns r) homes rs"
    using map_homes_Returns_iff by blast
  have g: "\<forall>homes. (\<exists>e. map_homes H homes = Throws e) \<longleftrightarrow>
         (\<exists>home \<in> set homes. \<exists>e. home_record H home = Throws e)"
    using map_homes_Throws_iff by blast
  have h: "\<forall>json homes. next_data doc = Some (Returns json) \<and> getprop (searchData_of json) ''homes'' = JArr homes
          \<longrightarrow> extractFromNextData H doc =
                (case map_homes H homes of Returns rs \<Rightarrow> Returns (Some rs) | Throws e \<Rightarrow> Returns None)"
    using extractFromNextData_homes by blast
  have i: "\<forall>json. ld_block (Returns json) =
         map ld_record (filter recognised (takeWhile (\<lambda>i. \<not> item_throws i) (items_of json)))"
    using ld_block_char(1) by blast
  have j: "\<forall>e. ld_block (Throws e) = []" using ld_block_char(2) by blast
  have k: "extractFromJsonLd doc =
        Returns (if concat (map ld_block (json_ld doc)) = [] then None
                 else Some (concat (map ld_block (json_ld doc))))"
    by (simp add: extractFromJsonLd_def Let_def)
  have l: "recognised (JObj [(''@type'', JStr ''RealEstateListing'')])"
    by (simp add: recognised_def is_listing_type_def field_def)
  from a b c d e f g h home_record_empty[of H] i j k l ld_record_bare
  show ?thesis by (intro conjI)
qed

text \<open>
  A home of which only the full location is known gives a record whose \<open>price\<close>,
  \<open>address\<close> and \<open>url\<close> are all \<^verbatim>\<open>null\<close>; the extractor returns it, the handler passes
  it to the admission loop, and it is pushed to the dataset.
\<close>

theorem C4_counterexample:
  "extractFromNextData example_host (ex_page [ex_bare_home]) = Returns (Some [ex_bare_record])
   \<and> field ex_bare_record ''price'' = JNull
   \<and> field ex_bare_record ''address'' = JNull
   \<and> field ex_bare_record ''url'' = JNull
   \<and> page_listings example_host (ex_page [ex_bare_home]) = Returns ([ex_bare_record], False)
   \<and> pushed (crawler_handle example_host 20 5 ex_request (ex_page [ex_bare_home]) initial_state)
       = Some [ex_bare_record]"
proof -
  have f: "field ex_bare_record ''price'' = JNull" "field ex_bare_record ''address'' = JNull"
    "field ex_bare_record ''url'' = JNull"
    by (simp_all add: ex_bare_record_def field_def)
  have p: "page_listings example_host (ex_page [ex_bare_home]) = Returns ([ex_bare_record], False)"
    by (simp add: page_listings_def ex_bare_extract)
  from ex_bare_extract f p ex_bare_pushed show ?thesis by (intro conjI)
qed

theorem C4_noise_is_stopped_by_the_tracker_witness:
  "map_homes example_host [JObj [], ex_bare_home] = Returns [map (\<lambda>k. (k, JNull)) next_data_fields, ex_bare_record]
   \<and> length [map (\<lambda>k. (k, JNull)) next_data_fields, ex_bare_record] = length [JObj [], ex_bare_home]
   \<and> snd (admit_loop 20 initial_state [map (\<lambda>k. (k, JNull)) next_data_fields, ex_bare_record]) = [ex_bare_record]
   \<and> truthy (field ex_bare_record ''full_address'')
   \<and> pushed (crawler_handle example_host 20 5 ex_request (ex_page [JObj []]) initial_state) = None
   \<and> home_record example_host JNull = Throws TypeError
   \<and> map_homes example_host [ex_bare_home, JNull] = Throws TypeError
   \<and> extractFromNextData example_host (ex_page [ex_bare_home, JNull]) = Returns None
   \<and> ld_block (Returns (JArr [ex_ld_item ''https://www.trulia.com/p/ny/1'', ex_breadcrumb, JNull,
                                 ex_ld_item ''https://www.trulia.com/p/ny/2'']))
       = [ex_ld_record ''https://www.trulia.com/p/ny/1'']"
proof -
  let ?null = "map (\<lambda>k. (k, JNull)) next_data_fields"
  let ?u1 = "''https://www.trulia.com/p/ny/1''" and ?u2 = "''https://www.trulia.com/p/ny/2''"
  have m: "map_homes example_host [JObj [], ex_bare_home] = Returns [?null, ex_bare_record]"
    by code_simp
  note A = C4_noise_is_stopped_by_the_tracker[of example_host, THEN conjunct1, rule_format, OF m]
  have o: "snd (admit_loop 20 initial_state [?null, ex_bare_record]) = [ex_bare_record]"
    by code_simp
  have i: "ex_bare_record \<in> set (snd (admit_loop 20 initial_state [?null, ex_bare_record]))"
    unfolding o by simp
  have n: "\<not> truthy (field ex_bare_record ''url'')" "\<not> truthy (field ex_bare_record ''address'')"
    by (simp_all add: ex_bare_record_def field_def)
  note D = C4_noise_is_stopped_by_the_tracker[of example_host _ 20 initial_state "[?null, ex_bare_record]",
      THEN conjunct2, THEN conjunct2, THEN conjunct2, THEN conjunct1, rule_format, OF i]
  from D n have t: "truthy (field ex_bare_record ''full_address'')" by blast
  have p: "pushed (crawler_handle example_host 20 5 ex_request (ex_page [JObj []]) initial_state) = None"
    by code_simp
  have hn: "home_record example_host JNull = Throws TypeError" by (simp add: home_record_def)
  then have ex: "\<exists>home \<in> set [ex_bare_home, JNull]. \<exists>e. home_record example_host home = Throws e" by simp
  note G = C4_noise_is_stopped_by_the_tracker[of example_host "ex_page [ex_bare_home, JNull]",
      THEN conjunct2, THEN conjunct2, THEN conjunct2, THEN conjunct2, THEN conjunct2, THEN conjunct2,
      THEN conjunct1, rule_format, of "[ex_bare_home, JNull]"]
  from G ex obtain e where th: "map_homes example_host [ex_bare_home, JNull] = Throws e" by blast
  have th': "map_homes example_host [ex_bare_home, JNull] = Throws TypeError" by code_simp
  let ?json = "JObj [(''props'', JObj [(''searchData'', JObj [(''homes'', JArr [ex_bare_home, JNull])])])]"
  have nd: "next_data (ex_page [ex_bare_home, JNull]) = Some (Returns ?json)" by (simp add: ex_page_def)
  have hm: "getprop (searchData_of ?json) ''homes'' = JArr [ex_bare_home, JNull]"
    by (simp add: searchData_of_def opt_def field_def or_js_def)
  note HH = C4_noise_is_stopped_by_the_tracker[of example_host "ex_page [ex_bare_home, JNull]",
      THEN conjunct2, THEN conjunct2, THEN conjunct2, THEN conjunct2, THEN conjunct2, THEN conjunct2,
      THEN conjunct2, THEN conjunct1, rule_format, of ?json "[ex_bare_home, JNull]"]
  from nd hm have "extractFromNextData example_host (ex_page [ex_bare_home, JNull]) =
      (case map_homes example_host [ex_bare_home, JNull] of Returns rs \<Rightarrow> Returns (Some rs)
       | Throws e \<Rightarrow> Returns None)"
    by (intro HH conjI)
  then have x: "extractFromNextData example_host (ex_page [ex_bare_home, JNull]) = Returns None"
    unfolding th' by simp
  note I = C4_noise_is_stopped_by_the_tracker[of example_host ex_empty,
      THEN conjunct2, THEN conjunct2, THEN conjunct2, THEN conjunct2, THEN conjunct2, THEN conjunct2,
      THEN conjunct2, THEN conjunct2, THEN conjunct2, THEN conjunct1, rule_format,
      of "JArr [ex_ld_item ?u1, ex_breadcrumb, JNull, ex_ld_item ?u2]"]
  have r1: "recognised (ex_ld_item ?u1)" "\<not> item_throws (ex_ld_item ?u1)"
    "\<not> recognised ex_breadcrumb" "\<not> item_throws ex_breadcrumb" "item_throws JNull"
    by (simp_all add: recognised_def item_throws_def is_listing_type_def ex_ld_item_def ex_breadcrumb_def
          field_def starts_with_def)
  have rec: "ld_record (ex_ld_item ?u1) = ex_ld_record ?u1"
    by (simp add: ld_record_def ex_ld_item_def ex_ld_record_def field_def or_js_def opt_def)
  have ld: "ld_block (Returns (JArr [ex_ld_item ?u1, ex_breadcrumb, JNull, ex_ld_item ?u2])) = [ex_ld_record ?u1]"
    unfolding I by (simp add: items_of_def r1 rec)
  from m A o t p hn th' x ld show ?thesis by (intro conjI)
qed



text \<open>
  C6 (as amended). The planner of \<^verbatim>\<open>main.js\<close>, \<open>buildNextPageUrl\<close>, uses the page counter
  of the URL only and never looks at the document: it returns \<^verbatim>\<open>null\<close> exactly when
  parsing the current URL throws. Otherwise, when the path ends with a page segment, a
  slash, one or more digits and \<^verbatim>\<open>_p\<close> with or without a final slash, that segment is
  replaced by the segment of the next page; when it does not, the path is kept, a slash
  is added if it does not end with one, and the segment of the next page is appended.
  What stands before and after the path is unchanged. Only \<open>findNextPage\<close> of the earlier
  variant looks for an explicit next link first; its counter branch returns \<^verbatim>\<open>null\<close> as
  an ordinary value when the path holds \<^verbatim>\<open>_p/\<close> but not the segment of the current page,
  and it lets the error of an invalid URL escape.
\<close>

theorem C6_page_counter_planner:
  "(buildNextPageUrl H u p = None \<longleftrightarrow> (\<exists>e. URL_new H u = Throws e))
   \<and> (\<forall>url. URL_new H u = Returns url \<longrightarrow>
        (\<exists>path. buildNextPageUrl H u p = Some (before_path url @ path @ after_path url)
            \<and> ends_with path (''/'' @ digits (p + 1) @ ''_p/'')))
   \<and> (\<forall>url base k. URL_new H u = Returns url \<and> pathname url = base @ ''/'' @ digits k @ ''_p/'' \<longrightarrow>
        buildNextPageUrl H u p
          = Some (before_path url @ base @ ''/'' @ digits (p + 1) @ ''_p/'' @ after_path url))
   \<and> (\<forall>x RW MP req s st.
        requestHandler H RW MP req (doc\<lparr>next_link := x\<rparr>) s st = requestHandler H RW MP req doc s st)
   \<and> (\<forall>h. next_link doc = Some h \<and> h \<noteq> [] \<and> starts_with h ''http'' \<longrightarrow>
        findNextPage H doc u p = Returns (Some h))
   \<and> (\<forall>url. (next_link doc = None \<or> next_link doc = Some []) \<and> URL_new H u = Returns url
          \<and> \<not> str_includes (pathname url) (''/'' @ digits p @ ''_p/'')
          \<and> str_includes (pathname url) ''_p/'' \<longrightarrow>
        findNextPage H doc u p = Returns None)
   \<and> (\<forall>e. (next_link doc = None \<or> next_link doc = Some []) \<and> URL_new H u = Throws e \<longrightarrow>
        findNextPage H doc u p = Throws e)
   \<and> (\<forall>url base ds. URL_new H u = Returns url \<and> ds \<noteq> [] \<and> list_all is_digit ds
          \<and> (pathname url = base @ ''/'' @ ds @ ''_p/'' \<or> pathname url = base @ ''/'' @ ds @ ''_p'') \<longrightarrow>
        buildNextPageUrl H u p
          = Some (before_path url @ base @ ''/'' @ digits (p + 1) @ ''_p/'' @ after_path url))
   \<and> (\<forall>url. URL_new H u = Returns url
          \<and> (\<forall>base ds. ds \<noteq> [] \<and> list_all is_digit ds \<longrightarrow>
                 pathname url \<noteq> base @ ''/'' @ ds @ ''_p/'' \<and> pathname url \<noteq> base @ ''/'' @ ds @ ''_p'') \<longrightarrow>
        buildNextPageUrl H u p
          = Some (before_path url @ pathname url @ (if ends_with (pathname url) ''/'' then [] else ''/'')
                  @ digits (p + 1) @ ''_p/'' @ after_path url))
   \<and> (\<forall>url. URL_new H u = Returns url
          \<and> \<not> ends_with (pathname url) ''_p/'' \<and> \<not> ends_with (pathname url) ''_p'' \<longrightarrow>
        buildNextPageUrl H u p
          = Some (before_path url @ pathname url @ (if ends_with (pathname url) ''/'' then [] else ''/'')
                  @ digits (p + 1) @ ''_p/'' @ after_path url))"
proof -
  have d: "\<forall>x RW MP req s st.
        requestHandler H RW MP req (doc\<lparr>next_link := x\<rparr>) s st = requestHandler H RW MP req doc s st"
    using requestHandler_next_link by blast
  have e: "\<forall>h. next_link doc = Some h \<and> h \<noteq> [] \<and> starts_with h ''http'' \<longrightarrow>
        findNextPage H doc u p = Returns (Some h)"
    by (auto simp: findNextPage_def split: list.splits)
  have f: "\<forall>url. (next_link doc = None \<or> next_link doc = Some []) \<and> URL_new H u = Returns url
          \<and> \<not> str_includes (pathname url) (''/'' @ digits p @ ''_p/'')
          \<and> str_includes (pathname url) ''_p/'' \<longrightarrow>
        findNextPage H doc u p = Returns None"
    by (auto simp: findNextPage_def Let_def)
  have g: "\<forall>e. (next_link doc = None \<or> next_link doc = Some []) \<and> URL_new H u = Throws e \<longrightarrow>
        findNextPage H doc u p = Throws e"
    by (auto simp: findNextPage_def)
  have a: "buildNextPageUrl H u p = None \<longleftrightarrow> (\<exists>e. URL_new H u = Throws e)"
    by (rule buildNextPageUrl_None)
  have b: "\<forall>url. URL_new H u = Returns url \<longrightarrow>
        (\<exists>path. buildNextPageUrl H u p = Some (before_path url @ path @ after_path url)
            \<and> ends_with path (''/'' @ digits (p + 1) @ ''_p/''))"
    using buildNextPageUrl_shape by blast
  have c: "\<forall>url base k. URL_new H u = Returns url \<and> pathname url = base @ ''/'' @ digits k @ ''_p/'' \<longrightarrow>
        buildNextPageUrl H u p
          = Some (before_path url @ base @ ''/'' @ digits (p + 1) @ ''_p/'' @ after_path url)"
    using buildNextPageUrl_replaces by blast
  have h: "\<forall>url base ds. URL_new H u = Returns url \<and> ds \<noteq> [] \<and> list_all is_digit ds
          \<and> (pathname url = base @ ''/'' @ ds @ ''_p/'' \<or> pathname url = base @ ''/'' @ ds @ ''_p'') \<longrightarrow>
        buildNextPageUrl H u p
          = Some (before_path url @ base @ ''/'' @ digits (p + 1) @ ''_p/'' @ after_path url)"
    using buildNextPageUrl_replaces_digits by blast
  have i: "\<forall>url. URL_new H u = Returns url
          \<and> (\<forall>base ds. ds \<noteq> [] \<and> list_all is_digit ds \<longrightarrow>
                 pathname url \<noteq> base @ ''/'' @ ds @ ''_p/'' \<and> pathname url \<noteq> base @ ''/'' @ ds @ ''_p'') \<longrightarrow>
        buildNextPageUrl H u p
          = Some (before_path url @ pathname url @ (if ends_with (pathname url) ''/'' then [] else ''/'')
                  @ digits (p + 1) @ ''_p/'' @ after_path url)"
    using buildNextPageUrl_appends by blast
  have j: "\<forall>url. URL_new H u = Returns url
          \<and> \<not> ends_with (pathname url) ''_p/'' \<and> \<not> ends_with (pathname url) ''_p'' \<longrightarrow>
        buildNextPageUrl H u p
          = Some (before_path url @ pathname url @ (if ends_with (pathname url) ''/'' then [] else ''/'')
                  @ digits (p + 1) @ ''_p/'' @ after_path url)"
    using buildNextPageUrl_appends_no_p by blast
  from a b c d e f g h i j show ?thesis by (intro conjI)
qed

text \<open>
  With a valid URL whose path is the one of page 3 while the page index is 1,
  \<open>findNextPage\<close> returns \<^verbatim>\<open>null\<close> and nothing has thrown; and on a page with an
  explicit next link, which \<open>findNextPage\<close> follows, the handler of \<^verbatim>\<open>main.js\<close> enqueues
  the URL of the page counter instead.
\<close>

theorem C6_counterexample:
  "URL_new example_host ''https://www.trulia.com/NY/3_p/''
     = Returns \<lparr>before_path = ''https://www.trulia.com'', pathname = ''/NY/3_p/'', after_path = []\<rparr>
   \<and> findNextPage example_host (ex_page []) ''https://www.trulia.com/NY/3_p/'' 1 = Returns None
   \<and> findNextPage example_host
         ((ex_page [ex_home ''/p/ny/1''])\<lparr>next_link := Some ''https://www.trulia.com/NY/page-two/''\<rparr>)
         ''https://www.trulia.com/NY/'' 1
       = Returns (Some ''https://www.trulia.com/NY/page-two/'')
   \<and> enqueued (crawler_handle example_host 20 5 ex_request
         ((ex_page [ex_home ''/p/ny/1''])\<lparr>next_link := Some ''https://www.trulia.com/NY/page-two/''\<rparr>)
         initial_state)
       = Some (''https://www.trulia.com/NY/2_p/'', 2)"
  by code_simp

theorem C6_page_counter_planner_witness:
  "URL_new example_host ''https://www.trulia.com/NY/7_p/?sort=new''
     = Returns \<lparr>before_path = ''https://www.trulia.com'', pathname = ''/NY/7_p/'', after_path = ''?sort=new''\<rparr>
   \<and> buildNextPageUrl example_host ''https://www.trulia.com/NY/7_p/?sort=new'' 7
       = Some ''https://www.trulia.com/NY/8_p/?sort=new''
   \<and> URL_new example_host ''trulia'' = Throws TypeError
   \<and> buildNextPageUrl example_host ''trulia'' 1 = None
   \<and> findNextPage example_host (ex_page []) ''https://www.trulia.com/NY/7_p/?sort=new'' 1 = Returns None
   \<and> findNextPage example_host (ex_page []) ''trulia'' 1 = Throws TypeError
   \<and> buildNextPageUrl example_host ''https://www.trulia.com/NY/'' 1 = Some ''https://www.trulia.com/NY/2_p/''
   \<and> buildNextPageUrl example_host ''https://www.trulia.com/NY'' 1 = Some ''https://www.trulia.com/NY/2_p/''
   \<and> buildNextPageUrl example_host ''https://www.trulia.com/NY/12_p#list'' 12
       = Some ''https://www.trulia.com/NY/13_p/#list''"
proof -
  let ?u = "''https://www.trulia.com/NY/7_p/?sort=new''"
  let ?url = "\<lparr>before_path = ''https://www.trulia.com'', pathname = ''/NY/7_p/'', after_path = ''?sort=new''\<rparr>"
  have p: "URL_new example_host ?u = Returns ?url" by code_simp
  have d: "digits 7 = ''7''" "digits 8 = ''8''" "digits 1 = ''1''" by code_simp+
  have seg: "pathname ?url = ''/NY'' @ ''/'' @ digits 7 @ ''_p/''" by (simp add: d)
  note A = C6_page_counter_planner[of example_host ?u 7 "ex_page []", THEN conjunct2, THEN conjunct2,
      THEN conjunct1, rule_format, of ?url "''/NY''" 7]
  from p seg have "buildNextPageUrl example_host ?u 7
          = Some (before_path ?url @ ''/NY'' @ ''/'' @ digits (7 + 1) @ ''_p/'' @ after_path ?url)"
    by (intro A conjI)
  then have b: "buildNextPageUrl example_host ?u 7 = Some ''https://www.trulia.com/NY/8_p/?sort=new''"
    by (simp add: d)
  have t: "URL_new example_host ''trulia'' = Throws TypeError" by code_simp
  from t have "\<exists>e. URL_new example_host ''trulia'' = Throws e" by blast
  with C6_page_counter_planner[of example_host "''trulia''" 1 "ex_page []", THEN conjunct1]
  have n: "buildNextPageUrl example_host ''trulia'' 1 = None" by blast
  have l: "next_link (ex_page []) = None \<or> next_link (ex_page []) = Some []" by (simp add: ex_page_def)
  have i: "\<not> str_includes (pathname ?url) (''/'' @ digits 1 @ ''_p/'')" "str_includes (pathname ?url) ''_p/''"
    by code_simp+
  note F = C6_page_counter_planner[of example_host ?u 1 "ex_page []", THEN conjunct2, THEN conjunct2,
      THEN conjunct2, THEN conjunct2, THEN conjunct2, THEN conjunct1, rule_format, of ?url]
  from l p i have f: "findNextPage example_host (ex_page []) ?u 1 = Returns None"
    by (intro F conjI)
  note G = C6_page_counter_planner[of example_host "''trulia''" 1 "ex_page []", THEN conjunct2, THEN conjunct2,
      THEN conjunct2, THEN conjunct2, THEN conjunct2, THEN conjunct2, THEN conjunct1, rule_format, of TypeError]
  from l t have g: "findNextPage example_host (ex_page []) ''trulia'' 1 = Throws TypeError"
    by (intro G conjI)
  let ?a = "\<lparr>before_path = ''https://www.trulia.com'', pathname = ''/NY/'', after_path = []\<rparr>"
  let ?b = "\<lparr>before_path = ''https://www.trulia.com'', pathname = ''/NY'', after_path = []\<rparr>"
  let ?c = "\<lparr>before_path = ''https://www.trulia.com'', pathname = ''/NY/12_p'', after_path = ''#list''\<rparr>"
  have pa: "URL_new example_host ''https://www.trulia.com/NY/'' = Returns ?a" by code_simp
  have pb: "URL_new example_host ''https://www.trulia.com/NY'' = Returns ?b" by code_simp
  have pc: "URL_new example_host ''https://www.trulia.com/NY/12_p#list'' = Returns ?c" by code_simp
  have d2: "digits (Suc (Suc 0)) = ''2''" "digits 2 = ''2''" "digits 13 = ''13''" by code_simp+
  have ea: "\<not> ends_with (pathname ?a) ''_p/''" "\<not> ends_with (pathname ?a) ''_p''" "ends_with (pathname ?a) ''/''"
    by (simp_all add: ends_with_def starts_with_def)
  have eb: "\<not> ends_with (pathname ?b) ''_p/''" "\<not> ends_with (pathname ?b) ''_p''" "\<not> ends_with (pathname ?b) ''/''"
    by (simp_all add: ends_with_def starts_with_def)
  note J = C6_page_counter_planner[of example_host _ 1 "ex_page []", THEN conjunct2, THEN conjunct2,
      THEN conjunct2, THEN conjunct2, THEN conjunct2, THEN conjunct2, THEN conjunct2, THEN conjunct2,
      THEN conjunct2, rule_format]
  from pa ea(1,2) have "buildNextPageUrl example_host ''https://www.trulia.com/NY/'' 1
      = Some (before_path ?a @ pathname ?a @ (if ends_with (pathname ?a) ''/'' then [] else ''/'')
              @ digits (1 + 1) @ ''_p/'' @ after_path ?a)"
    by (intro J conjI)
  then have ra: "buildNextPageUrl example_host ''https://www.trulia.com/NY/'' 1 = Some ''https://www.trulia.com/NY/2_p/''"
    using ea(3) by (simp add: d2)
  from pb eb(1,2) have "buildNextPageUrl example_host ''https://www.trulia.com/NY'' 1
      = Some (before_path ?b @ pathname ?b @ (if ends_with (pathname ?b) ''/'' then [] else ''/'')
              @ digits (1 + 1) @ ''_p/'' @ after_path ?b)"
    by (intro J conjI)
  then have rb: "buildNextPageUrl example_host ''https://www.trulia.com/NY'' 1 = Some ''https://www.trulia.com/NY/2_p/''"
    using eb(3) by (simp add: d2)
  note K = C6_page_counter_planner[of example_host "''https://www.trulia.com/NY/12_p#list''" 12 "ex_page []",
      THEN conjunct2, THEN conjunct2, THEN conjunct2, THEN conjunct2, THEN conjunct2, THEN conjunct2,
      THEN conjunct2, THEN conjunct1, rule_format, of ?c "''12''" "''/NY''"]
  have dg: "''12'' \<noteq> []" "list_all is_digit ''12''" by (simp_all add: is_digit_def)
  have fm: "pathname ?c = ''/NY'' @ ''/'' @ ''12'' @ ''_p/'' \<or> pathname ?c = ''/NY'' @ ''/'' @ ''12'' @ ''_p''"
    by simp
  from pc dg fm have "buildNextPageUrl example_host ''https://www.trulia.com/NY/12_p#list'' 12
      = Some (before_path ?c @ ''/NY'' @ ''/'' @ digits (12 + 1) @ ''_p/'' @ after_path ?c)"
    by (intro K conjI)
  then have rc: "buildNextPageUrl example_host ''https://www.trulia.com/NY/12_p#list'' 12
       = Some ''https://www.trulia.com/NY/13_p/#list''"
    by (simp add: d2)
  from p b t n f g ra rb rc show ?thesis by (intro conjI)
qed

text \<open>
  C7. When the title of a fetched page contains "Access Denied", "Captcha" or "Robot", the
  handler stops before extraction: its result does not depend on the scripts of the page,
  nothing is pushed or enqueued and the shared state is untouched; the session is retired
  and the error "Blocked by anti-bot protection" is thrown for this page only, which
  leaves the retry of its URL to the crawler.
\<close>

theorem C7_blocked_page:
  assumes "str_includes (title_text doc) ''Access Denied'' \<or> str_includes (title_text doc) ''Captcha''
           \<or> str_includes (title_text doc) ''Robot''"
  shows "crawler_handle H RW MP req doc st =
           \<lparr>state_after = st, session_retired = True, debug_saved = False, pushed = None,
            enqueued = None, thrown = Some (Error ''Blocked by anti-bot protection'')\<rparr>
         \<and> crawler_handle H RW MP req (doc\<lparr>next_data := nd, json_ld := ld\<rparr>) st
             = crawler_handle H RW MP req doc st"
  using assms by (simp add: crawler_handle_def requestHandler_def blocked_title_def)

theorem C7_blocked_page_witness:
  "str_includes (title_text ex_blocked) ''Access Denied''
   \<and> crawler_handle example_host 20 5 ex_request ex_blocked initial_state =
        \<lparr>state_after = initial_state, session_retired = True, debug_saved = False, pushed = None,
         enqueued = None, thrown = Some (Error ''Blocked by anti-bot protection'')\<rparr>
   \<and> pushed (crawler_handle example_host 20 5 ex_request (ex_blocked\<lparr>title_text := ''Homes''\<rparr>) initial_state) \<noteq> None"
proof -
  have t: "str_includes (title_text ex_blocked) ''Access Denied''"
    by (simp add: ex_blocked_def ex_page_def starts_with_def)
  have p: "pushed (crawler_handle example_host 20 5 ex_request (ex_blocked\<lparr>title_text := ''Homes''\<rparr>) initial_state) \<noteq> None"
    by code_simp
  from t have "str_includes (title_text ex_blocked) ''Access Denied'' \<or> str_includes (title_text ex_blocked) ''Captcha''
           \<or> str_includes (title_text ex_blocked) ''Robot''" by simp
  from C7_blocked_page[OF this, of example_host 20 5 ex_request initial_state] t p
  show ?thesis by simp
qed

text \<open>
  C8. Neither strategy ever throws, nor does their combination: a SyntaxError of
  \<^verbatim>\<open>JSON.parse\<close> or a TypeError on data of an unexpected shape inside the \<^verbatim>\<open>try\<close> block
  becomes the result \<^verbatim>\<open>null\<close>. On a page with no script, or whose scripts do not parse,
  or whose script holds something that is not an object, the result is empty.
\<close>

theorem C8_extract_never_throws:
  "(\<exists>r. extractFromNextData H doc = Returns r)
   \<and> (\<exists>r. extractFromJsonLd doc = Returns r)
   \<and> (\<exists>r. page_listings H doc = Returns r)
   \<and> (\<forall>e. extractFromNextData_try H doc = Throws e \<longrightarrow> extractFromNextData H doc = Returns None)
   \<and> ((next_data doc = None \<or> (\<exists>e. next_data doc = Some (Throws e)))
        \<and> (\<forall>b \<in> set (json_ld doc). \<exists>e. b = Throws e)
      \<longrightarrow> extractFromNextData H doc = Returns None \<and> extractFromJsonLd doc = Returns None
          \<and> page_listings H doc = Returns ([], True))
   \<and> (\<forall>json. next_data doc = Some (Returns json) \<and> (\<forall>ps. json \<noteq> JObj ps)
      \<longrightarrow> extractFromNextData H doc = Returns None)
   \<and> (\<forall>json. json_ld doc = [Returns json] \<and> (\<forall>ps. json \<noteq> JObj ps) \<and> (\<forall>xs. json \<noteq> JArr xs)
      \<longrightarrow> extractFromJsonLd doc = Returns None)"
proof -
  have d: "\<forall>e. extractFromNextData_try H doc = Throws e \<longrightarrow> extractFromNextData H doc = Returns None"
    by (simp add: extractFromNextData_def)
  have e: "(next_data doc = None \<or> (\<exists>e. next_data doc = Some (Throws e)))
        \<and> (\<forall>b \<in> set (json_ld doc). \<exists>e. b = Throws e)
      \<longrightarrow> extractFromNextData H doc = Returns None \<and> extractFromJsonLd doc = Returns None
          \<and> page_listings H doc = Returns ([], True)"
  proof
    assume h: "(next_data doc = None \<or> (\<exists>e. next_data doc = Some (Throws e)))
        \<and> (\<forall>b \<in> set (json_ld doc). \<exists>e. b = Throws e)"
    then have n: "extractFromNextData H doc = Returns None"
      by (auto simp: extractFromNextData_def extractFromNextData_try_def)
    from h have "concat (map ld_block (json_ld doc)) = []" using unparsed_blocks by blast
    then have l: "extractFromJsonLd doc = Returns None" by (simp add: extractFromJsonLd_def)
    from n l show "extractFromNextData H doc = Returns None \<and> extractFromJsonLd doc = Returns None
          \<and> page_listings H doc = Returns ([], True)"
      by (simp add: page_listings_def)
  qed
  have f: "\<forall>json. next_data doc = Some (Returns json) \<and> (\<forall>ps. json \<noteq> JObj ps)
      \<longrightarrow> extractFromNextData H doc = Returns None"
  proof (intro allI impI)
    fix json assume h: "next_data doc = Some (Returns json) \<and> (\<forall>ps. json \<noteq> JObj ps)"
    then have "searchData_of json = JUndefined"
      by (cases json) (auto simp: searchData_of_def opt_def or_js_def)
    with h show "extractFromNextData H doc = Returns None"
      by (simp add: extractFromNextData_def extractFromNextData_try_def)
  qed
  have g: "\<forall>json. json_ld doc = [Returns json] \<and> (\<forall>ps. json \<noteq> JObj ps) \<and> (\<forall>xs. json \<noteq> JArr xs)
      \<longrightarrow> extractFromJsonLd doc = Returns None"
  proof (intro allI impI)
    fix json assume h: "json_ld doc = [Returns json] \<and> (\<forall>ps. json \<noteq> JObj ps) \<and> (\<forall>xs. json \<noteq> JArr xs)"
    then show "extractFromJsonLd doc = Returns None"
      by (cases json) (auto simp: extractFromJsonLd_def ld_block_def is_listing_type_def)
  qed
  from extractFromNextData_Returns[of H doc] extractFromJsonLd_Returns[of doc] page_listings_Returns[of H doc]
    d e f g
  show ?thesis by (intro conjI)
qed

theorem C8_extract_never_throws_witness:
  "next_data ex_garbage = Some (Throws SyntaxError)
   \<and> json_ld ex_garbage = [Throws SyntaxError]
   \<and> extractFromNextData_try example_host ex_garbage = Throws SyntaxError
   \<and> extractFromNextData example_host ex_garbage = Returns None
   \<and> extractFromJsonLd ex_garbage = Returns None
   \<and> page_listings example_host ex_garbage = Returns ([], True)
   \<and> page_listings example_host ex_empty = Returns ([], True)
   \<and> extractFromNextData_try example_host (ex_page [JNull]) = Throws TypeError
   \<and> extractFromNextData example_host (ex_page [JNull]) = Returns None"
proof -
  have g1: "next_data ex_garbage = Some (Throws SyntaxError)" "json_ld ex_garbage = [Throws SyntaxError]"
    by (simp_all add: ex_garbage_def)
  have g2: "extractFromNextData_try example_host ex_garbage = Throws SyntaxError"
    by (simp add: extractFromNextData_try_def ex_garbage_def)
  have pre: "(next_data ex_garbage = None \<or> (\<exists>e. next_data ex_garbage = Some (Throws e)))
        \<and> (\<forall>b \<in> set (json_ld ex_garbage). \<exists>e. b = Throws e)"
    by (simp add: ex_garbage_def)
  note G = C8_extract_never_throws[of example_host ex_garbage, THEN conjunct2, THEN conjunct2, THEN conjunct2,
      THEN conjunct2, THEN conjunct1, rule_format, OF pre]
  have pre2: "(next_data ex_empty = None \<or> (\<exists>e. next_data ex_empty = Some (Throws e)))
        \<and> (\<forall>b \<in> set (json_ld ex_empty). \<exists>e. b = Throws e)"
    by (simp add: ex_empty_def)
  note E = C8_extract_never_throws[of example_host ex_empty, THEN conjunct2, THEN conjunct2, THEN conjunct2,
      THEN conjunct2, THEN conjunct1, rule_format, OF pre2]
  have n1: "extractFromNextData_try example_host (ex_page [JNull]) = Throws TypeError"
    by (simp add: extractFromNextData_try_def ex_page_def searchData_of_def opt_def field_def or_js_def
          home_record_def)
  note N = C8_extract_never_throws[of example_host "ex_page [JNull]", THEN conjunct2, THEN conjunct2,
      THEN conjunct2, THEN conjunct1, rule_format, OF n1]
  from g1 g2 G E n1 N show ?thesis by (intro conjI) (elim conjE, assumption)+
qed

text \<open>
  C9 (as amended). The handler keeps one set, \<open>seenUrls\<close>, for the identity keys of the
  listings and for the page URLs it enqueues. A next page is enqueued exactly when the
  quota and the page limit allow it and \<open>buildNextPageUrl\<close> returns a URL that is not in
  the set; once enqueued, a listing with that URL as its key is never admitted; and once a
  listing with that key is admitted, that page is not enqueued.
\<close>

theorem C9_one_shared_set:
  "(snd (paginate H RW MP u p st) \<noteq> None \<longleftrightarrow>
      real (saved st) < RW \<and> real p < MP \<and>
      (\<exists>nextUrl. buildNextPageUrl H u p = Some nextUrl \<and> nextUrl \<noteq> [] \<and> \<not> seen_has (seenUrls st) (JStr nextUrl)))
   \<and> (\<forall>nextUrl n ls. snd (paginate H RW MP u p st) = Some (nextUrl, n) \<longrightarrow>
         filter (\<lambda>l. same_value_zero (listing_key l) (JStr nextUrl))
           (snd (admit_loop RW (fst (paginate H RW MP u p st)) ls)) = [])
   \<and> (\<forall>l ls nextUrl. l \<in> set (snd (admit_loop RW st ls)) \<and> listing_key l = JStr nextUrl
         \<and> buildNextPageUrl H u p = Some nextUrl \<longrightarrow>
         snd (paginate H RW MP u p (fst (admit_loop RW st ls))) = None)"
proof -
  have b: "\<forall>nextUrl n ls. snd (paginate H RW MP u p st) = Some (nextUrl, n) \<longrightarrow>
         filter (\<lambda>l. same_value_zero (listing_key l) (JStr nextUrl))
           (snd (admit_loop RW (fst (paginate H RW MP u p st)) ls)) = []"
    using paginate_records admit_loop_seen_key by blast
  have c: "\<forall>l ls nextUrl. l \<in> set (snd (admit_loop RW st ls)) \<and> listing_key l = JStr nextUrl
         \<and> buildNextPageUrl H u p = Some nextUrl \<longrightarrow>
         snd (paginate H RW MP u p (fst (admit_loop RW st ls))) = None"
  proof (intro allI impI)
    fix l ls nextUrl
    assume h: "l \<in> set (snd (admit_loop RW st ls)) \<and> listing_key l = JStr nextUrl
         \<and> buildNextPageUrl H u p = Some nextUrl"
    then have "same_value_zero (listing_key l) (JStr nextUrl)" by simp
    with h have "seen_has (seenUrls (fst (admit_loop RW st ls))) (JStr nextUrl)"
      using admit_loop_records by blast
    with h show "snd (paginate H RW MP u p (fst (admit_loop RW st ls))) = None"
      by (simp add: paginate_def)
  qed
  from paginate_enqueues_iff[of H RW MP u p st] b c show ?thesis by (intro conjI)
qed

text \<open>
  The two kinds of entries do interfere: a listing whose URL is the address of the next
  page keeps that page from being enqueued, and an enqueued page keeps such a listing
  from being admitted.
\<close>

theorem C9_counterexample:
  "enqueued (crawler_handle example_host 20 5 ex_request (ex_page [ex_home ''/p/ny/1'']) initial_state)
     = Some (''https://www.trulia.com/NY/2_p/'', 2)
   \<and> enqueued (crawler_handle example_host 20 5 ex_request (ex_page [ex_home ''/NY/2_p/'']) initial_state) = None
   \<and> snd (admit_loop 20 \<lparr>saved = 0, seenUrls = []\<rparr> [ex_listing ''https://www.trulia.com/NY/2_p/''])
       = [ex_listing ''https://www.trulia.com/NY/2_p/'']
   \<and> snd (admit_loop 20 \<lparr>saved = 0, seenUrls = [JStr ''https://www.trulia.com/NY/2_p/'']\<rparr>
            [ex_listing ''https://www.trulia.com/NY/2_p/'']) = []
   \<and> fst (paginate example_host 20 5 ''https://www.trulia.com/NY/'' 1 \<lparr>saved = 0, seenUrls = []\<rparr>)
       = \<lparr>saved = 0, seenUrls = [JStr ''https://www.trulia.com/NY/2_p/'']\<rparr>"
  by code_simp

theorem C9_one_shared_set_witness:
  "snd (paginate example_host 20 5 ''https://www.trulia.com/NY/'' 1 initial_state)
     = Some (''https://www.trulia.com/NY/2_p/'', 2)
   \<and> filter (\<lambda>l. same_value_zero (listing_key l) (JStr ''https://www.trulia.com/NY/2_p/''))
        (snd (admit_loop 20 (fst (paginate example_host 20 5 ''https://www.trulia.com/NY/'' 1 initial_state))
           [ex_listing ''https://www.trulia.com/NY/2_p/''])) = []
   \<and> snd (admit_loop 20 initial_state [ex_listing ''https://www.trulia.com/NY/2_p/''])
       = [ex_listing ''https://www.trulia.com/NY/2_p/'']
   \<and> snd (paginate example_host 20 5 ''https://www.trulia.com/NY/'' 1
        (fst (admit_loop 20 initial_state [ex_listing ''https://www.trulia.com/NY/2_p/'']))) = None"
proof -
  let ?u = "''https://www.trulia.com/NY/2_p/''"
  note C = C9_one_shared_set[of example_host 20 5 "''https://www.trulia.com/NY/''" 1 initial_state]
  have p: "snd (paginate example_host 20 5 ''https://www.trulia.com/NY/'' 1 initial_state) = Some (?u, 2)"
    by code_simp
  have a: "snd (admit_loop 20 initial_state [ex_listing ?u]) = [ex_listing ?u]"
    by code_simp
  have k: "listing_key (ex_listing ?u) = JStr ?u"
    by code_simp
  have b: "buildNextPageUrl example_host ''https://www.trulia.com/NY/'' 1 = Some ?u"
    by code_simp
  have m: "ex_listing ?u \<in> set (snd (admit_loop 20 initial_state [ex_listing ?u]))"
    unfolding a by simp
  from C p have c2: "filter (\<lambda>l. same_value_zero (listing_key l) (JStr ?u))
        (snd (admit_loop 20 (fst (paginate example_host 20 5 ''https://www.trulia.com/NY/'' 1 initial_state))
           [ex_listing ?u])) = []" by blast
  from C m k b have c3: "snd (paginate example_host 20 5 ''https://www.trulia.com/NY/'' 1
        (fst (admit_loop 20 initial_state [ex_listing ?u]))) = None" by blast
  from p c2 a c3 show ?thesis by (intro conjI)
qed

text \<open>
  C10. For every input, an effective limit is at least 1. A value whose conversion to a
  number is finite is raised to 1 when smaller; a value that does not convert to a finite
  number, or an absent one, gives the default, 20 results and 5 pages. The conversion
  always succeeds on a value that is neither an array nor an object. With such a limit
  the first listing that has a key is admitted.
\<close>

theorem C10_limits_at_least_one:
  "(\<forall>x. RESULTS_WANTED_of H got = Returns x \<longrightarrow> 1 \<le> x)
   \<and> (\<forall>x. MAX_PAGES_of H got = Returns x \<longrightarrow> 1 \<le> x)
   \<and> (getprop (or_js got (JObj [])) ''results_wanted'' = JUndefined \<longrightarrow> RESULTS_WANTED_of H got = Returns 20)
   \<and> (getprop (or_js got (JObj [])) ''max_pages'' = JUndefined \<longrightarrow> MAX_PAGES_of H got = Returns 5)
   \<and> (\<forall>raw x. getprop (or_js got (JObj [])) ''results_wanted'' = raw \<and> raw \<noteq> JUndefined
          \<and> unary_plus H raw = Returns (Finite x) \<longrightarrow> RESULTS_WANTED_of H got = Returns (max 1 x))
   \<and> (\<forall>raw x. getprop (or_js got (JObj [])) ''max_pages'' = raw \<and> raw \<noteq> JUndefined
          \<and> unary_plus H raw = Returns (Finite x) \<longrightarrow> MAX_PAGES_of H got = Returns (max 1 x))
   \<and> (\<forall>raw. getprop (or_js got (JObj [])) ''results_wanted'' = raw
          \<and> unary_plus H raw \<in> {Returns NaN, Returns PosInf, Returns NegInf} \<longrightarrow> RESULTS_WANTED_of H got = Returns 20)
   \<and> (\<forall>raw. getprop (or_js got (JObj [])) ''max_pages'' = raw
          \<and> unary_plus H raw \<in> {Returns NaN, Returns PosInf, Returns NegInf} \<longrightarrow> MAX_PAGES_of H got = Returns 5)
   \<and> (\<forall>raw. getprop (or_js got (JObj [])) ''results_wanted'' = raw \<and> (\<forall>xs. raw \<noteq> JArr xs) \<and> (\<forall>ps. raw \<noteq> JObj ps)
          \<longrightarrow> (\<exists>x. RESULTS_WANTED_of H got = Returns x))
   \<and> (\<forall>raw. getprop (or_js got (JObj [])) ''max_pages'' = raw \<and> (\<forall>xs. raw \<noteq> JArr xs) \<and> (\<forall>ps. raw \<noteq> JObj ps)
          \<longrightarrow> (\<exists>x. MAX_PAGES_of H got = Returns x))
   \<and> (\<forall>x l. RESULTS_WANTED_of H got = Returns x \<and> truthy (listing_key l)
          \<longrightarrow> snd (admit_loop x initial_state [l]) = [l])"
proof -
  have a: "\<forall>x. RESULTS_WANTED_of H got = Returns x \<longrightarrow> 1 \<le> x"
    by (auto simp: RESULTS_WANTED_of_def dest: effective_limit_ge1)
  have b: "\<forall>x. MAX_PAGES_of H got = Returns x \<longrightarrow> 1 \<le> x"
    by (auto simp: MAX_PAGES_of_def dest: effective_limit_ge1)
  have tot: "(\<forall>xs. raw \<noteq> JArr xs) \<Longrightarrow> (\<forall>ps. raw \<noteq> JObj ps) \<Longrightarrow> \<exists>x. effective_limit H raw d = Returns x" for raw d
    by (cases raw) (auto simp: effective_limit_def split: number.splits)
  have c: "getprop (or_js got (JObj [])) ''results_wanted'' = JUndefined \<longrightarrow> RESULTS_WANTED_of H got = Returns 20"
    by (simp add: RESULTS_WANTED_of_def destructure_def effective_limit_def)
  have d: "getprop (or_js got (JObj [])) ''max_pages'' = JUndefined \<longrightarrow> MAX_PAGES_of H got = Returns 5"
    by (simp add: MAX_PAGES_of_def destructure_def effective_limit_def)
  have e: "\<forall>raw x. getprop (or_js got (JObj [])) ''results_wanted'' = raw \<and> raw \<noteq> JUndefined
          \<and> unary_plus H raw = Returns (Finite x) \<longrightarrow> RESULTS_WANTED_of H got = Returns (max 1 x)"
    by (simp add: RESULTS_WANTED_of_def destructure_def effective_limit_def)
  have f: "\<forall>raw x. getprop (or_js got (JObj [])) ''max_pages'' = raw \<and> raw \<noteq> JUndefined
          \<and> unary_plus H raw = Returns (Finite x) \<longrightarrow> MAX_PAGES_of H got = Returns (max 1 x)"
    by (simp add: MAX_PAGES_of_def destructure_def effective_limit_def)
  have g: "\<forall>raw. getprop (or_js got (JObj [])) ''results_wanted'' = raw
          \<and> unary_plus H raw \<in> {Returns NaN, Returns PosInf, Returns NegInf} \<longrightarrow> RESULTS_WANTED_of H got = Returns 20"
    by (auto simp: RESULTS_WANTED_of_def destructure_def effective_limit_def)
  have h: "\<forall>raw. getprop (or_js got (JObj [])) ''max_pages'' = raw
          \<and> unary_plus H raw \<in> {Returns NaN, Returns PosInf, Returns NegInf} \<longrightarrow> MAX_PAGES_of H got = Returns 5"
    by (auto simp: MAX_PAGES_of_def destructure_def effective_limit_def)
  have i: "\<forall>raw. getprop (or_js got (JObj [])) ''results_wanted'' = raw \<and> (\<forall>xs. raw \<noteq> JArr xs) \<and> (\<forall>ps. raw \<noteq> JObj ps)
          \<longrightarrow> (\<exists>x. RESULTS_WANTED_of H got = Returns x)"
    using tot by (auto simp: RESULTS_WANTED_of_def destructure_def)
  have j: "\<forall>raw. getprop (or_js got (JObj [])) ''max_pages'' = raw \<and> (\<forall>xs. raw \<noteq> JArr xs) \<and> (\<forall>ps. raw \<noteq> JObj ps)
          \<longrightarrow> (\<exists>x. MAX_PAGES_of H got = Returns x)"
    using tot by (auto simp: MAX_PAGES_of_def destructure_def)
  have k: "\<forall>x l. RESULTS_WANTED_of H got = Returns x \<and> truthy (listing_key l)
          \<longrightarrow> snd (admit_loop x initial_state [l]) = [l]"
  proof (intro allI impI)
    fix x l assume "RESULTS_WANTED_of H got = Returns x \<and> truthy (listing_key l)"
    with a have "1 \<le> x" "truthy (listing_key l)" by auto
    then show "snd (admit_loop x initial_state [l]) = [l]"
      by (simp add: initial_state_def seen_has_def)
  qed
  from a b c d e f g h i j k show ?thesis by (intro conjI)
qed

theorem C10_limits_at_least_one_witness:
  "RESULTS_WANTED_of example_host ex_input = Returns 1
   \<and> MAX_PAGES_of example_host ex_input = Returns 5
   \<and> RESULTS_WANTED_of example_host JNull = Returns 20
   \<and> (1::real) \<le> 1 \<and> (1::real) \<le> 5
   \<and> snd (admit_loop 1 initial_state [ex_listing ''a'']) = [ex_listing ''a'']"
proof -
  note C = C10_limits_at_least_one[of example_host ex_input]
  have r: "RESULTS_WANTED_of example_host ex_input = Returns 1"
    by (simp add: RESULTS_WANTED_of_def destructure_def effective_limit_def ex_input_def or_js_def field_def)
  have m: "MAX_PAGES_of example_host ex_input = Returns 5"
    by (simp add: MAX_PAGES_of_def destructure_def effective_limit_def ex_input_def or_js_def field_def
          example_host_def example_parse_number_def is_digit_def)
  have u: "getprop (or_js JNull (JObj [])) ''results_wanted'' = JUndefined"
    by (simp add: or_js_def field_def)
  from C10_limits_at_least_one[of example_host JNull] u
  have n: "RESULTS_WANTED_of example_host JNull = Returns 20" by blast
  have t: "truthy (listing_key (ex_listing ''a''))"
    by (simp add: ex_listing_def listing_key_def field_def or_js_def)
  from C r have r1: "(1::real) \<le> 1" by blast
  from C m have m1: "(1::real) \<le> 5" by blast
  from C r t have a: "snd (admit_loop 1 initial_state [ex_listing ''a'']) = [ex_listing ''a'']" by blast
  from r m n r1 m1 a show ?thesis by (intro conjI)
qed

end
